theory Spec2Isabelle
  imports Main "HOL-Library.Sublist" "HOL-Library.Char_ord" "HOL-Library.List_Lexorder"
begin

section \<open>Python string operations used by the tester script\<close>

text \<open>
  Python \<open>str\<close> values are modelled as \<open>string\<close>; one \<open>char\<close> stands for one code
  point below 256. \<open>k in s\<close> on strings is \<open>sublist k s\<close>, \<open>s.endswith(k)\<close> is
  \<open>suffix k s\<close> and \<open>s.startswith(k)\<close> is \<open>prefix k s\<close>.
\<close>

text \<open>
  \<open>str.lower()\<close> on one code point below 256: the letters A to Z, and the capital
  letters of Latin-1 (0xC0 to 0xDE, the multiplication sign 0xD7 apart), move up by 32.
\<close>

definition lower_char :: "char \<Rightarrow> char" where
  "lower_char c =
     (case map_of (zip ''ABCDEFGHIJKLMNOPQRSTUVWXYZ'' ''abcdefghijklmnopqrstuvwxyz'') c of
        Some d \<Rightarrow> d
      | None \<Rightarrow>
          if CHR 0xC0 \<le> c \<and> c \<le> CHR 0xDE \<and> c \<noteq> CHR 0xD7
          then char_of (of_char c + (32 :: nat)) else c)"

definition lower :: "string \<Rightarrow> string" where
  "lower s = map lower_char s"

text \<open>\<open>any(keyword in s for keyword in keywords)\<close>\<close>

definition any_in :: "string list \<Rightarrow> string \<Rightarrow> bool" where
  "any_in keywords s = list_ex (\<lambda>keyword. sublist keyword s) keywords"

text \<open>
  \<open>os.path.join(a, b)\<close> of posixpath: an absolute \<open>b\<close> replaces \<open>a\<close>; otherwise
  the separator is added unless \<open>a\<close> is empty or already ends with it.
\<close>

definition join :: "string \<Rightarrow> string \<Rightarrow> string" where
  "join a b =
     (if prefix ''/'' b then b
      else if a = [] \<or> suffix ''/'' a then a @ b
      else a @ ''/'' @ b)"

text \<open>
  The loop shape \<open>for x in xs: if ...: return ...\<close>: the first element for which the
  body returns decides; \<open>None\<close> means the loop ran to its end.
\<close>

fun first_some :: "('a \<Rightarrow> 'b option) \<Rightarrow> 'a list \<Rightarrow> 'b option" where
  "first_some f [] = None"
| "first_some f (x # xs) = (case f x of Some y \<Rightarrow> Some y | None \<Rightarrow> first_some f xs)"

section \<open>The directory tree and \<open>os.walk\<close>\<close>

text \<open>
  A file is its decoded text (\<open>open(..., errors='ignore')\<close> drops undecodable bytes, so
  every file that can be opened has a text), or \<open>None\<close> when opening or reading it raises.
  A directory lists its entries in the order \<open>os.scandir\<close> reports them.
\<close>

datatype node = File "string option" | Dir "(string \<times> node) list"

definition REPO_DIR :: string where
  "REPO_DIR = ''CoreShare''"

fun is_dir :: "string \<times> node \<Rightarrow> bool" where
  "is_dir (n, Dir es) = True"
| "is_dir (n, File c) = False"

fun nondirs :: "(string \<times> node) list \<Rightarrow> (string \<times> string option) list" where
  "nondirs [] = []"
| "nondirs ((n, File c) # es) = (n, c) # nondirs es"
| "nondirs ((n, Dir ds) # es) = nondirs es"

text \<open>
  \<open>os.walk(top)\<close>, top-down: the directory itself with its non-directory entries, then
  each sub-directory in listing order. Walking something that is not a directory yields
  nothing (the \<open>scandir\<close> error is swallowed, \<open>onerror\<close> being \<open>None\<close>). Each file name
  is paired with the file, which the source reaches through \<open>open(os.path.join(root, file))\<close>.
\<close>

fun walk :: "string \<Rightarrow> node \<Rightarrow> (string \<times> (string \<times> string option) list) list" where
  "walk root (File c) = []"
| "walk root (Dir es) =
     (root, nondirs es) # concat (map (\<lambda>(n, x). walk (join root n) x) (filter is_dir es))"

text \<open>
  The file system as the script sees it: \<open>None\<close> when \<open>REPO_DIR\<close> does not exist,
  otherwise the node found there.
\<close>

type_synonym filesystem = "node option"

definition os_walk :: "filesystem \<Rightarrow> (string \<times> (string \<times> string option) list) list" where
  "os_walk fs = (case fs of None \<Rightarrow> [] | Some t \<Rightarrow> walk REPO_DIR t)"

text \<open>
  Text mode translates \<open>\r\n\<close> and a lone \<open>\r\<close> to \<open>\n\<close> on reading.
\<close>

fun translate_newlines :: "string \<Rightarrow> string" where
  "translate_newlines [] = []"
| "translate_newlines (c # cs) =
     (if c = CHR 0x0D then
        (case cs of
           [] \<Rightarrow> [CHR 0x0A]
         | d # ds \<Rightarrow>
             if d = CHR 0x0A then CHR 0x0A # translate_newlines ds
             else CHR 0x0A # translate_newlines (d # ds))
      else c # translate_newlines cs)"

section \<open>\<open>find_chatbot_module\<close>: the three-tier file search\<close>

datatype exn = OSError | IndexError

definition patterns :: "string list" where
  "patterns =
     [''cori.py'', ''chatbot.py'', ''bot.py'', ''chat_with_cori.py'', ''assistant.py'',
      ''ai_chat.py'', ''conversation.py'', ''dialogue.py'', ''chat_service.py'']"

text \<open>\<open>for pattern in patterns: if pattern in files: return os.path.join(root, pattern)\<close>\<close>

definition exact_in_dir :: "string \<times> (string \<times> string option) list \<Rightarrow> string option" where
  "exact_in_dir = (\<lambda>(root, files).
     first_some (\<lambda>pattern. if pattern \<in> set (map fst files) then Some (join root pattern) else None)
       patterns)"

definition exact_match :: "filesystem \<Rightarrow> string option" where
  "exact_match fs = first_some exact_in_dir (os_walk fs)"

definition partial_name :: "string \<Rightarrow> bool" where
  "partial_name file \<longleftrightarrow>
     suffix ''.py'' file \<and> any_in [''chat'', ''cori'', ''bot''] (lower file)"

definition partial_in_dir :: "string \<times> (string \<times> string option) list \<Rightarrow> string option" where
  "partial_in_dir = (\<lambda>(root, files).
     first_some (\<lambda>(file, c). if partial_name file then Some (join root file) else None) files)"

definition partial_match :: "filesystem \<Rightarrow> string option" where
  "partial_match fs = first_some partial_in_dir (os_walk fs)"

text \<open>
  \<open>with open(file_path, ...) as f: content = f.read().lower()\<close>: the only statement of
  the search that can raise.
\<close>

definition read_lower :: "string option \<Rightarrow> exn + string" where
  "read_lower c =
     (case c of None \<Rightarrow> Inl OSError | Some text \<Rightarrow> Inr (lower (translate_newlines text)))"

text \<open>
  The body of the \<open>try\<close> of the third walk, for one file: \<open>Inl\<close> when it raises,
  \<open>Inr (Some path)\<close> when it returns the path, \<open>Inr None\<close> when it falls through.
\<close>

definition content_try :: "string \<Rightarrow> string option \<Rightarrow> exn + string option" where
  "content_try file_path c =
     (case read_lower c of
        Inl e \<Rightarrow> Inl e
      | Inr content \<Rightarrow>
          Inr (if sublist ''chat with cori'' content \<or> sublist ''cori chatbot'' content
               then Some file_path else None))"

text \<open>
  The loop shape again, for a body that may raise: an exception leaves the loop and the
  function (\<open>Inl\<close>), a returned value ends it, otherwise the next element is taken.
\<close>

fun first_return :: "('a \<Rightarrow> exn + 'b option) \<Rightarrow> 'a list \<Rightarrow> exn + 'b option" where
  "first_return f [] = Inr None"
| "first_return f (x # xs) =
     (case f x of
        Inl e \<Rightarrow> Inl e
      | Inr (Some y) \<Rightarrow> Inr (Some y)
      | Inr None \<Rightarrow> first_return f xs)"

text \<open>
  One iteration of the inner loop of the third walk: the \<open>try\<close> with its handler
  \<open>except Exception: pass\<close>, after which the loop goes on.
\<close>

definition content_file :: "string \<Rightarrow> string \<times> string option \<Rightarrow> exn + string option" where
  "content_file root = (\<lambda>(file, c).
     if \<not> suffix ''.py'' file then Inr None
     else (case content_try (join root file) c of Inl e \<Rightarrow> Inr None | Inr r \<Rightarrow> Inr r))"

definition content_in_dir :: "string \<times> (string \<times> string option) list \<Rightarrow> exn + string option" where
  "content_in_dir = (\<lambda>(root, files). first_return (content_file root) files)"

definition content_match :: "filesystem \<Rightarrow> exn + string option" where
  "content_match fs = first_return content_in_dir (os_walk fs)"

text \<open>The result is \<open>Inl\<close> if an exception leaves the function.\<close>

definition find_chatbot_module :: "filesystem \<Rightarrow> exn + string option" where
  "find_chatbot_module fs =
     (if fs = None then Inr None
      else case exact_match fs of
        Some p \<Rightarrow> Inr (Some p)
      | None \<Rightarrow>
         (case partial_match fs of
            Some p \<Rightarrow> Inr (Some p)
          | None \<Rightarrow> content_match fs))"

section \<open>\<open>find_api_function\<close>: picking the callable\<close>

text \<open>
  What leaves a function that does not catch it, and in the end the interpreter:
  \<open>sys.exit\<close> with the status it sets, a keyboard interrupt, or any other exception
  that nothing catches.
\<close>

datatype escape = SystemExit int | KeyboardInterrupt | Uncaught

text \<open>
  What a \<open>raise\<close> raises. An instance of \<open>Exception\<close> is given by what \<open>str\<close> of it
  does: the text (\<open>Inr\<close>), or the way the exception of a failing \<open>__str__\<close> leaves
  (\<open>Inl\<close>). Anything else (\<open>SystemExit\<close>, \<open>KeyboardInterrupt\<close>, another
  \<open>BaseException\<close>) is not caught by \<open>except Exception\<close>.
\<close>

datatype raised = Exception "escape + string" | BaseException escape

text \<open>
  What a call passes: strings and the two dictionaries the script builds. A call either
  raises or returns a response; the response is given by what rendering it in an f-string
  does: the text, or what the rendering raises. A callable may change the state of the
  loaded program, so it is a state transformer (rendering is taken to leave the state
  alone).
\<close>

datatype pyval = PyStr string | PyDict "(string \<times> string) list"

datatype outcome = Raises raised | Returns "raised + string"

type_synonym 's pyfunc = "'s \<Rightarrow> pyval list \<Rightarrow> outcome \<times> 's"

text \<open>
  A callable object: its truth value (\<open>bool(obj)\<close>), its \<open>__name__\<close> (\<open>None\<close> when
  the attribute is missing, as for a \<open>functools.partial\<close> or an instance with
  \<open>__call__\<close>), and what calling it does.
\<close>

record 's callable_obj =
  truthy :: bool
  dunder_name :: "string option"
  call :: "'s pyfunc"

datatype 's attr = Data | Callable "'s callable_obj"

text \<open>
  A loaded module is its attribute dictionary, in the order the attributes were defined.
  \<open>hasattr\<close>/\<open>getattr\<close> look a name up; \<open>dir(module)\<close> is the sorted list of the names.
\<close>

type_synonym 's pymodule = "(string \<times> 's attr) list"

definition dir_names :: "'s pymodule \<Rightarrow> string list" where
  "dir_names m = sort (remdups (map fst m))"

definition function_candidates :: "string list" where
  "function_candidates =
     [''chat'', ''process_message'', ''get_response'', ''handle_message'',
      ''generate_response'', ''answer'', ''respond'', ''process_chat'',
      ''chat_with_cori'', ''cori_response'', ''send_message'']"

text \<open>\<open>if hasattr(module, func_name) and callable(getattr(module, func_name))\<close>\<close>

definition callable_attr :: "'s pymodule \<Rightarrow> string \<Rightarrow> 's callable_obj option" where
  "callable_attr m func_name =
     (case map_of m func_name of
        Some (Callable f) \<Rightarrow> Some f
      | _ \<Rightarrow> None)"

definition relevant_attr :: "'s pymodule \<Rightarrow> string \<Rightarrow> 's callable_obj option" where
  "relevant_attr m attr_name =
     (if prefix ''_'' attr_name then None
      else case map_of m attr_name of
        Some (Callable f) \<Rightarrow>
          (if any_in [''chat'', ''message'', ''response'', ''cori''] (lower attr_name)
           then Some f else None)
      | _ \<Rightarrow> None)"

definition find_api_function :: "'s pymodule \<Rightarrow> 's callable_obj option" where
  "find_api_function m =
     (case first_some (callable_attr m) function_candidates of
        Some f \<Rightarrow> Some f
      | None \<Rightarrow> first_some (relevant_attr m) (dir_names m))"

section \<open>\<open>try_chatbot_function\<close>: the calling patterns\<close>

definition hex_digit :: "nat \<Rightarrow> char" where
  "hex_digit k = ''0123456789abcdef'' ! (k mod 16)"

text \<open>
  \<open>json.dumps\<close> of a string (\<open>ensure_ascii\<close>): quote, backslash and the short control
  escapes, \<open>\uXXXX\<close> for everything else outside space..tilde.
\<close>

definition json_escape_char :: "char \<Rightarrow> string" where
  "json_escape_char c =
     (if c = CHR 0x22 then [CHR 0x5C, CHR 0x22]
      else if c = CHR 0x5C then [CHR 0x5C, CHR 0x5C]
      else if c = CHR 0x08 then [CHR 0x5C, CHR ''b'']
      else if c = CHR 0x0C then [CHR 0x5C, CHR ''f'']
      else if c = CHR 0x0A then [CHR 0x5C, CHR ''n'']
      else if c = CHR 0x0D then [CHR 0x5C, CHR ''r'']
      else if c = CHR 0x09 then [CHR 0x5C, CHR ''t'']
      else if CHR 0x20 \<le> c \<and> c \<le> CHR 0x7E then [c]
      else [CHR 0x5C, CHR ''u'', CHR ''0'', CHR ''0'',
            hex_digit (of_char c div 16), hex_digit (of_char c)])"

definition json_string :: "string \<Rightarrow> string" where
  "json_string s = [CHR 0x22] @ concat (map json_escape_char s) @ [CHR 0x22]"

text \<open>\<open>json.dumps({"message": message})\<close>\<close>

definition json_dumps_message :: "string \<Rightarrow> string" where
  "json_dumps_message message = ''{'' @ json_string ''message'' @ '': '' @ json_string message @ ''}''"

text \<open>The argument lists of the five lambdas of \<open>try_patterns\<close>, in order.\<close>

definition try_patterns :: "string \<Rightarrow> pyval list list" where
  "try_patterns message =
     [[PyStr message],
      [PyDict [(''message'', message)]],
      [PyStr message, PyStr ''test_user''],
      [PyDict [(''message'', message), (''user_id'', ''test_user'')]],
      [PyStr (json_dumps_message message)]]"

text \<open>
  What one run of the function does, in order: its log lines and, between them, the calls
  it makes. \<open>ErrorLogged\<close> holds the line given to \<open>logger.error\<close>;
  \<open>TracebackLogged\<close> is \<open>logger.error(traceback.format_exc())\<close>.
\<close>

datatype event =
    TestingMessage string
  | TryingPattern nat
  | Called "pyval list"
  | GotResponse string
  | ErrorLogged string
  | TracebackLogged

text \<open>\<open>f"Failed with all calling patterns. Last error: {e}"\<close>\<close>

definition last_error_line :: "string \<Rightarrow> string" where
  "last_error_line e = ''Failed with all calling patterns. Last error: '' @ e"

text \<open>
  The body of the \<open>try\<close>, after the call: \<open>logger.info(f"Got response: {response}")\<close>
  renders the response, which may raise in its turn.
\<close>

definition attempt :: "outcome \<Rightarrow> raised + string" where
  "attempt out = (case out of Raises r \<Rightarrow> Inl r | Returns rendering \<Rightarrow> rendering)"

text \<open>
  \<open>for i, pattern in enumerate(try_patterns)\<close> from index \<open>i\<close> on, \<open>n\<close> being
  \<open>len(try_patterns)\<close>. The result is \<open>success\<close>, or what left the function uncaught,
  with the events and the state so far. \<open>except Exception\<close> does not catch a
  \<open>BaseException\<close>; on the last pattern the handler renders the exception, which leaves
  the function if that fails.
\<close>

fun pattern_loop ::
  "'s pyfunc \<Rightarrow> nat \<Rightarrow> nat \<Rightarrow> pyval list list \<Rightarrow> 's \<Rightarrow> (escape + bool) \<times> event list \<times> 's" where
  "pattern_loop func n i [] s = (Inr False, [], s)"
| "pattern_loop func n i (pattern # rest) s =
     (case func s pattern of
        (out, s') \<Rightarrow>
          (case attempt out of
             Inr response \<Rightarrow>
               (Inr True, [TryingPattern (i + 1), Called pattern, GotResponse response], s')
           | Inl (BaseException esc) \<Rightarrow>
               (Inl esc, [TryingPattern (i + 1), Called pattern], s')
           | Inl (Exception rendered) \<Rightarrow>
               if i = n - 1 then
                 (case rendered of
                    Inl esc \<Rightarrow> (Inl esc, [TryingPattern (i + 1), Called pattern], s')
                  | Inr e \<Rightarrow>
                      (case pattern_loop func n (i + 1) rest s' of
                         (result, events, s'') \<Rightarrow>
                           (result,
                            [TryingPattern (i + 1), Called pattern,
                             ErrorLogged (last_error_line e), TracebackLogged] @ events,
                            s'')))
               else
                 (case pattern_loop func n (i + 1) rest s' of
                    (result, events, s'') \<Rightarrow>
                      (result, [TryingPattern (i + 1), Called pattern] @ events, s''))))"

text \<open>\<open>for message in test_messages\<close>, leaving at the first success.\<close>

fun message_loop :: "'s pyfunc \<Rightarrow> string list \<Rightarrow> 's \<Rightarrow> (escape + bool) \<times> event list \<times> 's" where
  "message_loop func [] s = (Inr False, [], s)"
| "message_loop func (message # rest) s =
     (case pattern_loop func (length (try_patterns message)) 0 (try_patterns message) s of
        (Inl esc, events, s') \<Rightarrow> (Inl esc, TestingMessage message # events, s')
      | (Inr success, events, s') \<Rightarrow>
          if success then (Inr True, TestingMessage message # events, s')
          else (case message_loop func rest s' of
                  (result, events', s'') \<Rightarrow>
                    (result, TestingMessage message # events @ events', s'')))"

text \<open>
  \<open>if not func: return False\<close>: \<open>func\<close> is \<open>None\<close>, or an object that is falsy.
\<close>

definition try_chatbot_function ::
  "'s callable_obj option \<Rightarrow> string list \<Rightarrow> 's \<Rightarrow> (escape + bool) \<times> event list \<times> 's" where
  "try_chatbot_function func test_messages s =
     (case func of
        None \<Rightarrow> (Inr False, [], s)
      | Some obj \<Rightarrow>
          if \<not> truthy obj then (Inr False, [], s)
          else message_loop (call obj) test_messages s)"

section \<open>\<open>test_flask_endpoints\<close>: the static route scan\<close>

text \<open>
  Cutting a text after each \<open>\n\<close>, the line ends kept; \<open>cur\<close> holds the current line
  reversed.
\<close>

fun lines_of :: "string \<Rightarrow> string \<Rightarrow> string list" where
  "lines_of cur [] = (if cur = [] then [] else [rev cur])"
| "lines_of cur (c # cs) =
     (if c = CHR 0x0A then rev (c # cur) # lines_of [] cs else lines_of (c # cur) cs)"

definition readlines :: "string \<Rightarrow> string list" where
  "readlines text = lines_of [] (translate_newlines text)"

text \<open>\<open>s.split(sep)\<close> for a separator \<open>p # ps\<close>; \<open>cur\<close> holds the current piece reversed.\<close>

fun split_at :: "char \<Rightarrow> string \<Rightarrow> string \<Rightarrow> string \<Rightarrow> string list" where
  "split_at p ps cur [] = [rev cur]"
| "split_at p ps cur (c # cs) =
     (if c = p \<and> prefix ps cs then rev cur # split_at p ps [] (drop (length ps) cs)
      else split_at p ps (c # cur) cs)"

text \<open>An empty separator raises \<open>ValueError\<close>; the script never passes one.\<close>

definition split :: "string \<Rightarrow> string \<Rightarrow> string list" where
  "split sep s = (case sep of [] \<Rightarrow> [] | p # ps \<Rightarrow> split_at p ps [] s)"

text \<open>\<open>xs[1]\<close>\<close>

definition second :: "'a list \<Rightarrow> exn + 'a" where
  "second xs = (case xs of _ # y # _ \<Rightarrow> Inr y | _ \<Rightarrow> Inl IndexError)"

text \<open>\<open>xs[0]\<close> of a \<open>split\<close> result, which always has a first piece.\<close>

definition first_piece :: "string list \<Rightarrow> string" where
  "first_piece xs = (case xs of [] \<Rightarrow> [] | x # _ \<Rightarrow> x)"

text \<open>The characters \<open>str.strip()\<close> removes, among the code points below 256.\<close>

definition is_space :: "char \<Rightarrow> bool" where
  "is_space c \<longleftrightarrow>
     c \<in> set [CHR 0x09, CHR 0x0A, CHR 0x0B, CHR 0x0C, CHR 0x0D, CHR 0x1C, CHR 0x1D,
              CHR 0x1E, CHR 0x1F, CHR 0x20, CHR 0x85, CHR 0xA0]"

definition strip_while :: "(char \<Rightarrow> bool) \<Rightarrow> string \<Rightarrow> string" where
  "strip_while P s = rev (dropWhile P (rev (dropWhile P s)))"

definition strip :: "string \<Rightarrow> string" where
  "strip s = strip_while is_space s"

definition strip_chars :: "string \<Rightarrow> string \<Rightarrow> string" where
  "strip_chars chars s = strip_while (\<lambda>c. c \<in> set chars) s"

text \<open>The gate of the first walk: a Flask import and one of the three words.\<close>

definition flask_gate :: "string \<Rightarrow> bool" where
  "flask_gate content \<longleftrightarrow>
     (sublist ''from flask import'' content \<or> sublist ''import flask'' content)
     \<and> (sublist ''chat'' content \<or> sublist ''cori'' content \<or> sublist ''bot'' content)"

text \<open>
  One file of the first walk: the paths it appends to \<open>app_files\<close>. The file is kept
  beside its path, the second loop opening it again by that path.
\<close>

definition app_file :: "string \<Rightarrow> string \<times> string option \<Rightarrow> (string \<times> string option) list" where
  "app_file root = (\<lambda>(file, c).
     if \<not> suffix ''.py'' file then []
     else (case read_lower c of
             Inl e \<Rightarrow> []
           | Inr content \<Rightarrow> if flask_gate content then [(join root file, c)] else []))"

definition app_files :: "filesystem \<Rightarrow> (string \<times> string option) list" where
  "app_files fs = concat (map (\<lambda>(root, files). concat (map (app_file root) files)) (os_walk fs))"

definition route_line :: "string \<Rightarrow> bool" where
  "route_line line_lower \<longleftrightarrow>
     (sublist ''@app.route'' line_lower \<or> sublist ''@blueprint.route'' line_lower)
     \<and> (sublist ''chat'' line_lower \<or> sublist ''message'' line_lower \<or> sublist ''cori'' line_lower)"

text \<open>
  The three statements under the \<open>if\<close>, for a matching line and the lines after it
  (\<open>content[i+1]\<close> is the first of them): the route and the function name, or the
  \<open>IndexError\<close> of a missing piece or a missing next line.
\<close>

definition extract_route :: "string \<Rightarrow> string list \<Rightarrow> exn + string \<times> string" where
  "extract_route line rest =
     (case second (split ''route('' line) of
        Inl e \<Rightarrow> Inl e
      | Inr after \<Rightarrow>
          let route = strip_chars [CHR 0x22] (strip_chars [CHR 0x27] (strip (first_piece (split '')'' after))))
          in (case rest of
                [] \<Rightarrow> Inl IndexError
              | next_line # _ \<Rightarrow>
                  (case second (split ''def '' (strip next_line)) of
                     Inl e \<Rightarrow> Inl e
                   | Inr named \<Rightarrow> Inr (route, strip (first_piece (split ''('' named))))))"

text \<open>
  \<open>for i, line in enumerate(content)\<close> inside the \<open>try\<close>: an exception leaves the loop
  and the file, the endpoints appended before it stay.
\<close>

fun scan_lines :: "string \<Rightarrow> string list \<Rightarrow> (string \<times> string \<times> string) list" where
  "scan_lines file_path [] = []"
| "scan_lines file_path (line # rest) =
     (if route_line (lower line) then
        (case extract_route line rest of
           Inl e \<Rightarrow> []
         | Inr (route, func_name) \<Rightarrow> (route, func_name, file_path) # scan_lines file_path rest)
      else scan_lines file_path rest)"

definition scan_file :: "string \<times> string option \<Rightarrow> (string \<times> string \<times> string) list" where
  "scan_file = (\<lambda>(file_path, c).
     case c of
       None \<Rightarrow> []
     | Some text \<Rightarrow> scan_lines file_path (readlines text))"

definition chatbot_endpoints :: "filesystem \<Rightarrow> (string \<times> string \<times> string) list" where
  "chatbot_endpoints fs = concat (map scan_file (app_files fs))"

definition test_flask_endpoints :: "filesystem \<Rightarrow> bool" where
  "test_flask_endpoints fs =
     (if app_files fs = [] then False
      else if chatbot_endpoints fs \<noteq> [] then True
      else False)"

section \<open>\<open>main\<close>: the sequence of stages\<close>

text \<open>
  \<open>load_module_from_path\<close> runs the file's top-level code, which this development does
  not look into: the loader is a parameter giving, for a module name and a path, what
  \<open>spec_from_file_location\<close> and \<open>exec_module\<close> do there: no spec, a raise during the
  execution, or the attribute dictionary and the program state after it. Loading and
  calling are taken to leave the directory tree as it was.
\<close>

datatype 's executed = NoSpec | ExecRaises raised | Executed "'s pymodule" 's

type_synonym 's loader = "string \<Rightarrow> string \<Rightarrow> 's executed"

text \<open>
  \<open>except Exception as e\<close> logs \<open>f"Error loading module ...: {e}"\<close> and returns
  \<open>None\<close>; a failing rendering of \<open>e\<close> and a \<open>BaseException\<close> leave the function.
\<close>

definition load_module_from_path ::
  "'s loader \<Rightarrow> string \<Rightarrow> string \<Rightarrow> escape + ('s pymodule \<times> 's) option" where
  "load_module_from_path loader module_name file_path =
     (case loader module_name file_path of
        NoSpec \<Rightarrow> Inr None
      | Executed m s \<Rightarrow> Inr (Some (m, s))
      | ExecRaises (BaseException esc) \<Rightarrow> Inl esc
      | ExecRaises (Exception rendered) \<Rightarrow>
          (case rendered of Inl esc \<Rightarrow> Inl esc | Inr e \<Rightarrow> Inr None))"

text \<open>\<open>os.path.basename\<close>: what follows the last separator.\<close>

definition basename :: "string \<Rightarrow> string" where
  "basename p = rev (takeWhile (\<lambda>c. c \<noteq> CHR ''/'') (rev p))"

text \<open>\<open>os.path.basename(chatbot_module_path).split('.')[0]\<close>\<close>

definition module_name_of :: "string \<Rightarrow> string" where
  "module_name_of chatbot_module_path = first_piece (split ''.'' (basename chatbot_module_path))"

definition default_messages :: "string list" where
  "default_messages =
     [''Hello'', ''How are you?'', ''What services do you offer?'',
      ''Tell me about CoreShare'', ''Can you help me with a question?'']"

text \<open>\<open>if args.message: test_messages.insert(0, args.message)\<close>\<close>

definition test_messages :: "string option \<Rightarrow> string list" where
  "test_messages message =
     (case message of
        None \<Rightarrow> default_messages
      | Some m \<Rightarrow> if m = [] then default_messages else m # default_messages)"

text \<open>The functions \<open>main\<close> calls, in the order it calls them.\<close>

datatype stage =
    FindChatbotModule
  | LoadModule string string
  | FindApiFunction
  | TryChatbotFunction "event list"
  | TestFlaskEndpoints

text \<open>
  The result is the value \<open>main\<close> returns, or what leaves it: \<open>main\<close> has no
  \<open>try\<close>, so whatever leaves a function it calls leaves \<open>main\<close> too.
  \<open>if not chatbot_module_path\<close> holds for \<open>None\<close> and for the empty string,
  \<open>if not api_function\<close> for \<open>None\<close> and for a falsy object, and
  \<open>api_function.__name__\<close> raises \<open>AttributeError\<close> where the attribute is missing.
\<close>

definition main :: "string option \<Rightarrow> filesystem \<Rightarrow> 's loader \<Rightarrow> (escape + bool) \<times> stage list" where
  "main message fs loader =
     (if fs = None then (Inr False, [])
      else case find_chatbot_module fs of
        Inl e \<Rightarrow> (Inl Uncaught, [FindChatbotModule])
      | Inr None \<Rightarrow> (Inr (test_flask_endpoints fs), [FindChatbotModule, TestFlaskEndpoints])
      | Inr (Some chatbot_module_path) \<Rightarrow>
          if chatbot_module_path = [] then
            (Inr (test_flask_endpoints fs), [FindChatbotModule, TestFlaskEndpoints])
          else
          let module_name = module_name_of chatbot_module_path in
          (case load_module_from_path loader module_name chatbot_module_path of
             Inl esc \<Rightarrow> (Inl esc, [FindChatbotModule, LoadModule module_name chatbot_module_path])
           | Inr None \<Rightarrow>
               (Inr False, [FindChatbotModule, LoadModule module_name chatbot_module_path])
           | Inr (Some (m, s)) \<Rightarrow>
               (case find_api_function m of
                  None \<Rightarrow>
                    (Inr (test_flask_endpoints fs),
                     [FindChatbotModule, LoadModule module_name chatbot_module_path,
                      FindApiFunction, TestFlaskEndpoints])
                | Some api_function \<Rightarrow>
                    if \<not> truthy api_function then
                      (Inr (test_flask_endpoints fs),
                       [FindChatbotModule, LoadModule module_name chatbot_module_path,
                        FindApiFunction, TestFlaskEndpoints])
                    else if dunder_name api_function = None then
                      (Inl Uncaught,
                       [FindChatbotModule, LoadModule module_name chatbot_module_path,
                        FindApiFunction])
                    else
                    (case try_chatbot_function (Some api_function) (test_messages message) s of
                       (Inl esc, events, s') \<Rightarrow>
                         (Inl esc,
                          [FindChatbotModule, LoadModule module_name chatbot_module_path,
                           FindApiFunction, TryChatbotFunction events])
                     | (Inr success, events, s') \<Rightarrow>
                         if success then
                           (Inr True,
                            [FindChatbotModule, LoadModule module_name chatbot_module_path,
                             FindApiFunction, TryChatbotFunction events])
                         else
                           (Inr (test_flask_endpoints fs),
                            [FindChatbotModule, LoadModule module_name chatbot_module_path,
                             FindApiFunction, TryChatbotFunction events, TestFlaskEndpoints])))))"

text \<open>
  The status with which the script ends: \<open>sys.exit(0 if success else 1)\<close> after
  \<open>main\<close> returns; the status of a \<open>SystemExit\<close> that left it; 1 after the traceback
  of another uncaught exception; 130 as a shell reports the interrupt signal.
\<close>

definition exit_status :: "escape + bool \<Rightarrow> int" where
  "exit_status result =
     (case result of
        Inr success \<Rightarrow> (if success then 0 else 1)
      | Inl (SystemExit status) \<Rightarrow> status
      | Inl KeyboardInterrupt \<Rightarrow> 130
      | Inl Uncaught \<Rightarrow> 1)"

section \<open>Reading a run of \<open>try_chatbot_function\<close>\<close>

text \<open>The calls, the pattern numbers and the messages of an event list, in order.\<close>

fun calls_of :: "event list \<Rightarrow> pyval list list" where
  "calls_of [] = []"
| "calls_of (Called args # es) = args # calls_of es"
| "calls_of (e # es) = calls_of es"

fun tried_of :: "event list \<Rightarrow> nat list" where
  "tried_of [] = []"
| "tried_of (TryingPattern i # es) = i # tried_of es"
| "tried_of (e # es) = tried_of es"

fun tested_of :: "event list \<Rightarrow> string list" where
  "tested_of [] = []"
| "tested_of (TestingMessage m # es) = m # tested_of es"
| "tested_of (e # es) = tested_of es"

text \<open>
  Calling a function on each argument list of a sequence, one after the other: the
  outcomes in order and the state after the last call.
\<close>

fun call_all :: "'s pyfunc \<Rightarrow> pyval list list \<Rightarrow> 's \<Rightarrow> outcome list \<times> 's" where
  "call_all func [] s = ([], s)"
| "call_all func (args # rest) s =
     (case func s args of
        (r, s') \<Rightarrow> (case call_all func rest s' of (rs, s'') \<Rightarrow> (r # rs, s'')))"

section \<open>A tree with its unreadable files emptied\<close>

text \<open>
  The same tree with every file that cannot be read replaced by an empty readable file;
  \<open>blank_files\<close> does the same to the files of one walked directory.
\<close>

definition blank :: "string option \<Rightarrow> string option" where
  "blank c = (case c of None \<Rightarrow> Some [] | Some text \<Rightarrow> Some text)"

fun blank_unreadable :: "node \<Rightarrow> node" where
  "blank_unreadable (File c) = File (blank c)"
| "blank_unreadable (Dir es) = Dir (map (\<lambda>(n, x). (n, blank_unreadable x)) es)"

definition blank_files :: "(string \<times> string option) list \<Rightarrow> (string \<times> string option) list" where
  "blank_files files = map (\<lambda>(n, c). (n, blank c)) files"

section \<open>Reaching a line of the route scan\<close>

text \<open>
  The loop of \<open>scan_lines\<close> over the lines \<open>pre\<close>, which the lines \<open>after\<close> follow in the
  file, runs to the end of \<open>pre\<close> without an exception: each matching line of \<open>pre\<close>
  extracts.
\<close>

fun earlier_extract :: "string list \<Rightarrow> string list \<Rightarrow> bool" where
  "earlier_extract [] after = True"
| "earlier_extract (line # pre) after =
     (if route_line (lower line) then
        (case extract_route line (pre @ after) of
           Inl e \<Rightarrow> False
         | Inr x \<Rightarrow> earlier_extract pre after)
      else earlier_extract pre after)"

section \<open>A match of the content walk\<close>

text \<open>
  A file of the walk that is a match for the third tier: a \<open>.py\<close> file that can be read
  and whose lowered text holds one of the two phrases. A file that cannot be read is no
  match.
\<close>

definition content_hit :: "string \<times> string option \<Rightarrow> bool" where
  "content_hit = (\<lambda>(file, c).
     suffix ''.py'' file
     \<and> (case c of
          None \<Rightarrow> False
        | Some text \<Rightarrow>
            sublist ''chat with cori'' (lower (translate_newlines text))
            \<or> sublist ''cori chatbot'' (lower (translate_newlines text))))"

text \<open>The first match among the files of one walked directory, as the path returned.\<close>

definition hit_in_dir :: "string \<times> (string \<times> string option) list \<Rightarrow> string option" where
  "hit_in_dir = (\<lambda>(root, files).
     first_some (\<lambda>(name, c). if content_hit (name, c) then Some (join root name) else None) files)"

section \<open>Example inputs\<close>

text \<open>
  A tree whose first directory holds a file matching both later tiers and whose second
  directory holds \<open>bot.py\<close>.
\<close>

definition tree_with_bot :: node where
  "tree_with_bot =
     Dir [(''notes'', Dir [(''mychat.py'', File (Some ''chat with cori''))]),
          (''src'', Dir [(''bot.py'', File (Some []))])]"

text \<open>\<open>def chat(message): return f"echo:{message}"\<close>: one positional argument only.\<close>

definition echo :: "unit callable_obj" where
  "echo =
     \<lparr>truthy = True, dunder_name = Some ''chat'',
      call = (\<lambda>s args.
        case args of
          [PyStr m] \<Rightarrow> (Returns (Inr (''echo:'' @ m)), s)
        | [PyDict d] \<Rightarrow> (Returns (Inr ''echo:{...}''), s)
        | _ \<Rightarrow> (Raises (Exception (Inr ''TypeError'')), s))\<rparr>"

text \<open>
  A function of one argument that returns an object whose \<open>__str__\<close> raises
  \<open>ValueError("no text")\<close>; with two arguments the call itself raises \<open>TypeError\<close>.
\<close>

definition mute :: "unit callable_obj" where
  "mute =
     \<lparr>truthy = True, dunder_name = Some ''chat'',
      call = (\<lambda>s args.
        case args of
          [x] \<Rightarrow> (Returns (Inl (Exception (Inr ''no text''))), s)
        | _ \<Rightarrow> (Raises (Exception (Inr ''TypeError'')), s))\<rparr>"

text \<open>
  A function that raises on every call and counts its calls: the \<open>k\<close>-th call raises
  an exception whose text is \<open>k\<close> exclamation marks.
\<close>

definition refuse :: "nat callable_obj" where
  "refuse =
     \<lparr>truthy = True, dunder_name = Some ''chat'',
      call = (\<lambda>s args. (Raises (Exception (Inr (replicate (Suc s) (CHR ''!'')))), Suc s))\<rparr>"

text \<open>
  A function that raises, on every call, an instance of \<open>Exception\<close> whose \<open>__str__\<close>
  raises \<open>ValueError\<close>.
\<close>

definition unprintable :: "unit callable_obj" where
  "unprintable =
     \<lparr>truthy = True, dunder_name = Some ''chat'',
      call = (\<lambda>s args. (Raises (Exception (Inl Uncaught)), s))\<rparr>"

text \<open>A loader under which the top-level code of every file raises \<open>ImportError\<close>.\<close>

definition failing_loader :: "unit loader" where
  "failing_loader module_name file_path = ExecRaises (Exception (Inr ''ImportError''))"

text \<open>A loader under which the top-level code of every file calls \<open>sys.exit(status)\<close>.\<close>

definition exiting_loader :: "int \<Rightarrow> unit loader" where
  "exiting_loader status module_name file_path = ExecRaises (BaseException (SystemExit status))"

text \<open>A root directory holding one readable file.\<close>

definition one_file :: "string \<Rightarrow> string \<Rightarrow> filesystem" where
  "one_file name body = Some (Dir [(name, File (Some body))])"

text \<open>The two lines \<open>@app.route("/chat")\<close> and \<open>def respond():\<close>.\<close>

definition route_chat_text :: string where
  "route_chat_text =
     ''@app.route('' @ [CHR 0x22] @ ''/chat'' @ [CHR 0x22] @ '')'' @ [CHR 0x0A]
     @ ''def respond():'' @ [CHR 0x0A]"

text \<open>The same two lines after the line \<open>from flask import Flask\<close>.\<close>

definition flask_chat_text :: string where
  "flask_chat_text = ''from flask import Flask'' @ [CHR 0x0A] @ route_chat_text"

text \<open>
  A Flask file whose route line \<open>@app.route("/api/x")\<close> has no keyword and whose handler
  line \<open>def handle_chat():\<close> has one.
\<close>

definition flask_handler_text :: string where
  "flask_handler_text =
     ''from flask import Flask'' @ [CHR 0x0A]
     @ ''@app.route('' @ [CHR 0x22] @ ''/api/x'' @ [CHR 0x22] @ '')'' @ [CHR 0x0A]
     @ ''def handle_chat():'' @ [CHR 0x0A]"

text \<open>
  A module that defines \<open>reply_to_message\<close> first and \<open>chat_handler\<close> second, and
  none of the names of \<open>function_candidates\<close>.
\<close>

definition first_handler :: "unit callable_obj" where
  "first_handler =
     \<lparr>truthy = True, dunder_name = Some ''reply_to_message'',
      call = (\<lambda>s args. (Returns (Inr ''first''), s))\<rparr>"

definition second_handler :: "unit callable_obj" where
  "second_handler =
     \<lparr>truthy = True, dunder_name = Some ''chat_handler'',
      call = (\<lambda>s args. (Returns (Inr ''second''), s))\<rparr>"

definition two_handlers :: "unit pymodule" where
  "two_handlers =
     [(''reply_to_message'', Callable first_handler), (''chat_handler'', Callable second_handler)]"

text \<open>
  A root directory whose first file cannot be read and whose second file holds one of the
  phrases; neither name matches the first two tiers.
\<close>

definition tree_with_locked_file :: node where
  "tree_with_locked_file =
     Dir [(''locked.py'', File None), (''notes.py'', File (Some ''Cori Chatbot notes''))]"



section \<open>Facts about the early-return loop\<close>

lemma first_some_None_iff: "first_some f xs = None \<longleftrightarrow> (\<forall>x\<in>set xs. f x = None)"
  by (induction xs) (auto split: option.splits)

lemma first_some_SomeD:
  "first_some f xs = Some y \<Longrightarrow>
     \<exists>pre x post. xs = pre @ x # post \<and> (\<forall>z\<in>set pre. f z = None) \<and> f x = Some y"
proof (induction xs)
  case Nil
  then show ?case by simp
next
  case (Cons a xs)
  show ?case
  proof (cases "f a")
    case None
    with Cons.prems have "first_some f xs = Some y" by simp
    from Cons.IH [OF this] obtain pre x post
      where "xs = pre @ x # post" "\<forall>z\<in>set pre. f z = None" "f x = Some y" by blast
    with None have "a # xs = (a # pre) @ x # post \<and> (\<forall>z\<in>set (a # pre). f z = None) \<and> f x = Some y"
      by simp
    then show ?thesis by blast
  next
    case (Some b)
    with Cons.prems have "f a = Some y" by simp
    then have "a # xs = [] @ a # xs \<and> (\<forall>z\<in>set []. f z = None) \<and> f a = Some y" by simp
    then show ?thesis by blast
  qed
qed

section \<open>The exact-name tier decides first\<close>

lemma exact_in_dir_None_iff:
  "exact_in_dir (root, files) = None \<longleftrightarrow> (\<forall>p\<in>set patterns. p \<notin> fst ` set files)"
  by (simp add: exact_in_dir_def first_some_None_iff)

lemma exact_in_dir_SomeD:
  assumes "exact_in_dir (root, files) = Some y"
  shows "\<exists>p\<in>set patterns. p \<in> fst ` set files \<and> y = join root p"
proof -
  from assms obtain pre p post where
    "patterns = pre @ p # post"
    "(if p \<in> set (map fst files) then Some (join root p) else None) = Some y"
    unfolding exact_in_dir_def by (auto dest!: first_some_SomeD)
  moreover from this(1) have "p \<in> set patterns" by (metis in_set_conv_decomp)
  ultimately show ?thesis by (cases "p \<in> set (map fst files)") auto
qed

text \<open>
  C1. Whenever some directory of the walk holds a file whose name is one of the exact
  patterns, \<open>find_chatbot_module\<close> returns the path of such a file: the one in the first
  directory, in walk order, that holds any. The answer is that of the exact tier alone,
  whatever the partial-name and content tiers would have found in the same tree.
\<close>

theorem exact_name_wins:
  assumes "(root, files) \<in> set (os_walk (Some t))"
    and "name \<in> fst ` set files"
    and "name \<in> set patterns"
  shows "\<exists>pre root' files' post pattern.
           os_walk (Some t) = pre @ (root', files') # post
         \<and> (\<forall>(r, fs)\<in>set pre. \<forall>p\<in>set patterns. p \<notin> fst ` set fs)
         \<and> pattern \<in> set patterns \<and> pattern \<in> fst ` set files'
         \<and> find_chatbot_module (Some t) = Inr (Some (join root' pattern))
         \<and> find_chatbot_module (Some t) = Inr (exact_match (Some t))"
proof -
  from assms(2,3) have "exact_in_dir (root, files) \<noteq> None"
    by (auto simp: exact_in_dir_None_iff)
  with assms(1) have "exact_match (Some t) \<noteq> None"
    by (auto simp: exact_match_def first_some_None_iff)
  then obtain y where y: "exact_match (Some t) = Some y" by blast
  then obtain pre d post where d:
    "os_walk (Some t) = pre @ d # post" "\<forall>z\<in>set pre. exact_in_dir z = None" "exact_in_dir d = Some y"
    unfolding exact_match_def by (blast dest: first_some_SomeD)
  obtain root' files' where rf: "d = (root', files')" by (cases d)
  from d(3) rf obtain pattern where p:
    "pattern \<in> set patterns" "pattern \<in> fst ` set files'" "y = join root' pattern"
    by (blast dest: exact_in_dir_SomeD)
  have pre: "\<forall>(r, fs)\<in>set pre. \<forall>p\<in>set patterns. p \<notin> fst ` set fs"
  proof -
    have "\<forall>p\<in>set patterns. p \<notin> fst ` set fs" if "(r, fs) \<in> set pre" for r fs
    proof -
      from that d(2) have "exact_in_dir (r, fs) = None" by blast
      then show ?thesis by (simp add: exact_in_dir_None_iff)
    qed
    then show ?thesis by fast
  qed
  from y have found: "find_chatbot_module (Some t) = Inr (Some y)"
    by (simp add: find_chatbot_module_def)
  show ?thesis
  proof (intro exI conjI)
    show "os_walk (Some t) = pre @ (root', files') # post" using d(1) rf by simp
    show "\<forall>(r, fs)\<in>set pre. \<forall>p\<in>set patterns. p \<notin> fst ` set fs" by (rule pre)
    show "pattern \<in> set patterns" by (rule p(1))
    show "pattern \<in> fst ` set files'" by (rule p(2))
    show "find_chatbot_module (Some t) = Inr (Some (join root' pattern))" using found p(3) by simp
    show "find_chatbot_module (Some t) = Inr (exact_match (Some t))" using found y by simp
  qed
qed

theorem exact_name_wins_witness:
  "(''CoreShare/src'', [(''bot.py'', Some [])]) \<in> set (os_walk (Some tree_with_bot))
   \<and> ''bot.py'' \<in> fst ` set [(''bot.py'', Some ([] :: string))]
   \<and> ''bot.py'' \<in> set patterns
   \<and> (\<exists>pre root' files' post pattern.
           os_walk (Some tree_with_bot) = pre @ (root', files') # post
         \<and> (\<forall>(r, fs)\<in>set pre. \<forall>p\<in>set patterns. p \<notin> fst ` set fs)
         \<and> pattern \<in> set patterns \<and> pattern \<in> fst ` set files'
         \<and> find_chatbot_module (Some tree_with_bot) = Inr (Some (join root' pattern))
         \<and> find_chatbot_module (Some tree_with_bot) = Inr (exact_match (Some tree_with_bot)))"
proof -
  have h1: "(''CoreShare/src'', [(''bot.py'', Some [])]) \<in> set (os_walk (Some tree_with_bot))"
    by (simp add: os_walk_def tree_with_bot_def REPO_DIR_def join_def suffix_to_prefix)
  have h2: "''bot.py'' \<in> fst ` set [(''bot.py'', Some ([] :: string))]" by simp
  have h3: "''bot.py'' \<in> set patterns" by (simp add: patterns_def)
  from exact_name_wins [OF h1 h2 h3] h1 h2 h3 show ?thesis by blast
qed

section \<open>The calling patterns, tried in order\<close>

lemma mute_run:
  "try_chatbot_function (Some mute) [''Hello''] () =
     (Inr False,
      [TestingMessage ''Hello'',
       TryingPattern 1, Called [PyStr ''Hello''],
       TryingPattern 2, Called [PyDict [(''message'', ''Hello'')]],
       TryingPattern 3, Called [PyStr ''Hello'', PyStr ''test_user''],
       TryingPattern 4, Called [PyDict [(''message'', ''Hello''), (''user_id'', ''test_user'')]],
       TryingPattern 5, Called [PyStr (json_dumps_message ''Hello'')],
       ErrorLogged (last_error_line ''no text''), TracebackLogged],
      ())"
  by (simp add: try_chatbot_function_def try_patterns_def attempt_def mute_def)

text \<open>
  C2, as stated, fails: a function whose one-argument call returns, but whose response
  cannot be rendered for the log line inside the \<open>try\<close>, is a failed pattern 1; all
  five patterns are tried and the run reports failure. A falsy callable is not called at
  all.
\<close>

theorem returning_call_without_success:
  "fst (call mute () [PyStr ''Hello'']) = Returns (Inl (Exception (Inr ''no text'')))
   \<and> fst (try_chatbot_function (Some mute) [''Hello''] ()) = Inr False
   \<and> tried_of (fst (snd (try_chatbot_function (Some mute) [''Hello''] ()))) = [1, 2, 3, 4, 5]
   \<and> fst (call (echo\<lparr>truthy := False\<rparr>) () [PyStr ''Hello'']) = Returns (Inr ''echo:Hello'')
   \<and> try_chatbot_function (Some (echo\<lparr>truthy := False\<rparr>)) [''Hello''] () = (Inr False, [], ())"
proof -
  have "fst (call mute () [PyStr ''Hello'']) = Returns (Inl (Exception (Inr ''no text'')))"
    by (simp add: mute_def)
  moreover have "fst (call (echo\<lparr>truthy := False\<rparr>) () [PyStr ''Hello'']) = Returns (Inr ''echo:Hello'')"
    by (simp add: echo_def)
  moreover have "try_chatbot_function (Some (echo\<lparr>truthy := False\<rparr>)) [''Hello''] () = (Inr False, [], ())"
    by (simp add: try_chatbot_function_def)
  ultimately show ?thesis by (simp add: mute_run)
qed

text \<open>
  C2, amended. If the callable is truthy and its call with the single plain-text argument
  returns, for the first message, a response that the log line can render, the run reports
  success after exactly that one call: pattern 1 is the only pattern tried, no other
  message is tested, and one response is logged.
\<close>

theorem first_pattern_success:
  assumes "truthy obj"
    and "call obj s [PyStr message] = (Returns (Inr response), s')"
  shows "try_chatbot_function (Some obj) (message # rest) s =
           (Inr True,
            [TestingMessage message, TryingPattern 1, Called [PyStr message], GotResponse response],
            s')"
  using assms by (simp add: try_chatbot_function_def try_patterns_def attempt_def)

theorem first_pattern_success_witness:
  "truthy echo
   \<and> call echo () [PyStr ''Hello''] = (Returns (Inr ''echo:Hello''), ())
   \<and> try_chatbot_function (Some echo) [''Hello'', ''How are you?''] () =
       (Inr True,
        [TestingMessage ''Hello'', TryingPattern 1, Called [PyStr ''Hello''], GotResponse ''echo:Hello''],
        ())"
proof -
  have h1: "truthy echo" by (simp add: echo_def)
  have h2: "call echo () [PyStr ''Hello''] = (Returns (Inr ''echo:Hello''), ())" by (simp add: echo_def)
  from first_pattern_success [of echo "()" "''Hello''" "''echo:Hello''" "()" "[''How are you?'']"] h1 h2
  show ?thesis by simp
qed

lemma calls_of_append: "calls_of (xs @ ys) = calls_of xs @ calls_of ys"
  by (induction xs rule: calls_of.induct) simp_all

lemma tried_of_append: "tried_of (xs @ ys) = tried_of xs @ tried_of ys"
  by (induction xs rule: tried_of.induct) simp_all

lemma tested_of_append: "tested_of (xs @ ys) = tested_of xs @ tested_of ys"
  by (induction xs rule: tested_of.induct) simp_all

lemma call_all_append:
  "call_all func (xs @ ys) s =
     (case call_all func xs s of
        (rs, s') \<Rightarrow> (case call_all func ys s' of (rs', s'') \<Rightarrow> (rs @ rs', s'')))"
  by (induction xs arbitrary: s) (simp_all split: prod.splits)

lemma call_all_length: "length (fst (call_all func xs s)) = length xs"
proof (induction xs arbitrary: s)
  case Nil
  show ?case by simp
next
  case (Cons a xs)
  obtain r s1 where step: "func s a = (r, s1)" by (cases "func s a")
  obtain rs s2 where rest: "call_all func xs s1 = (rs, s2)" by (cases "call_all func xs s1")
  from Cons.IH [of s1] rest have "length rs = length xs" by simp
  with step rest show ?case by simp
qed

lemma call_all_append_split:
  assumes "call_all func (xs @ ys) s = (outs, s_end)"
  shows "\<exists>rs1 s1 rs2. call_all func xs s = (rs1, s1) \<and> call_all func ys s1 = (rs2, s_end)
           \<and> outs = rs1 @ rs2 \<and> length rs1 = length xs"
proof -
  obtain rs1 s1 where a: "call_all func xs s = (rs1, s1)" by (cases "call_all func xs s")
  obtain rs2 s2 where b: "call_all func ys s1 = (rs2, s2)" by (cases "call_all func ys s1")
  from assms a b have "outs = rs1 @ rs2" "s_end = s2" by (simp_all add: call_all_append)
  moreover from call_all_length [of func xs s] a have "length rs1 = length xs" by simp
  ultimately show ?thesis using a b by blast
qed

lemma pattern_loop_all_raise:
  "call_all func ps s = (outs, s_end) \<Longrightarrow>
   (\<forall>k<length outs. \<exists>r. outs ! k = Raises (Exception r) \<and> (i + k = n - 1 \<longrightarrow> (\<exists>e. r = Inr e))) \<Longrightarrow>
   \<exists>events. pattern_loop func n i ps s = (Inr False, events, s_end)
      \<and> calls_of events = ps \<and> tried_of events = map Suc [i..<i + length ps]
      \<and> tested_of events = []
      \<and> (ps \<noteq> [] \<longrightarrow> i + length ps = n \<longrightarrow>
            (\<exists>pre e. events = pre @ [ErrorLogged (last_error_line e), TracebackLogged]
                 \<and> last outs = Raises (Exception (Inr e))))"
proof (induction ps arbitrary: i s outs)
  case Nil
  then show ?case by simp
next
  case (Cons p rest)
  obtain out s1 where step: "func s p = (out, s1)" by (cases "func s p")
  obtain outs' s2 where tail: "call_all func rest s1 = (outs', s2)"
    by (cases "call_all func rest s1")
  from Cons.prems(1) step tail have outs: "outs = out # outs'" and s2: "s2 = s_end" by simp_all
  from Cons.prems(2) outs obtain r where
    out: "out = Raises (Exception r)" and last_one: "i = n - 1 \<longrightarrow> (\<exists>e. r = Inr e)"
    by fastforce
  have later: "\<forall>k<length outs'. \<exists>r. outs' ! k = Raises (Exception r)
                 \<and> (i + 1 + k = n - 1 \<longrightarrow> (\<exists>e. r = Inr e))"
  proof (intro allI impI)
    fix k assume "k < length outs'"
    with outs have "Suc k < length outs" by simp
    with Cons.prems(2) have "\<exists>r. outs ! Suc k = Raises (Exception r)
                 \<and> (i + Suc k = n - 1 \<longrightarrow> (\<exists>e. r = Inr e))"
      by blast
    with outs show "\<exists>r. outs' ! k = Raises (Exception r)
                 \<and> (i + 1 + k = n - 1 \<longrightarrow> (\<exists>e. r = Inr e))" by simp
  qed
  from Cons.IH [OF tail [unfolded s2] later] obtain events' where
    rec: "pattern_loop func n (i + 1) rest s1 = (Inr False, events', s_end)"
    and calls': "calls_of events' = rest"
    and tried': "tried_of events' = map Suc [i + 1..<i + 1 + length rest]"
    and tested': "tested_of events' = []"
    and diag': "rest \<noteq> [] \<longrightarrow> i + 1 + length rest = n \<longrightarrow>
            (\<exists>pre e. events' = pre @ [ErrorLogged (last_error_line e), TracebackLogged]
                 \<and> last outs' = Raises (Exception (Inr e)))"
    by blast
  have upt: "[i..<i + length (p # rest)] = i # [i + 1..<i + 1 + length rest]"
    by (simp del: upt_Suc add: upt_conv_Cons)
  have outs'_len: "length outs' = length rest"
    using call_all_length [of func rest s1] tail by simp
  show ?case
  proof (cases "i = n - 1")
    case True
    with last_one obtain e where r: "r = Inr e" by blast
    let ?events = "[TryingPattern (i + 1), Called p, ErrorLogged (last_error_line e), TracebackLogged]
                     @ events'"
    have run: "pattern_loop func n i (p # rest) s = (Inr False, ?events, s_end)"
      using step out r True rec by (simp add: attempt_def)
    have c1: "calls_of ?events = p # rest" using calls' by simp
    have c2: "tried_of ?events = map Suc [i..<i + length (p # rest)]"
      using tried' upt by (simp del: upt_Suc)
    have c3: "tested_of ?events = []" using tested' by simp
    have c4: "\<exists>pre e'. ?events = pre @ [ErrorLogged (last_error_line e'), TracebackLogged]
                 \<and> last outs = Raises (Exception (Inr e'))"
      if len: "i + length (p # rest) = n"
    proof -
      from len True have "rest = []" by (cases n) auto
      with rec outs'_len have "events' = []" "outs' = []" by simp_all
      with outs out r have
        "?events = [TryingPattern (i + 1), Called p] @ [ErrorLogged (last_error_line e), TracebackLogged]
           \<and> last outs = Raises (Exception (Inr e))"
        by simp
      then show ?thesis by blast
    qed
    from run c1 c2 c3 c4 show ?thesis by blast
  next
    case False
    let ?events = "[TryingPattern (i + 1), Called p] @ events'"
    have run: "pattern_loop func n i (p # rest) s = (Inr False, ?events, s_end)"
      using step out False rec by (simp add: attempt_def)
    have c1: "calls_of ?events = p # rest" using calls' by simp
    have c2: "tried_of ?events = map Suc [i..<i + length (p # rest)]"
      using tried' upt by (simp del: upt_Suc)
    have c3: "tested_of ?events = []" using tested' by simp
    have c4: "\<exists>pre e'. ?events = pre @ [ErrorLogged (last_error_line e'), TracebackLogged]
                 \<and> last outs = Raises (Exception (Inr e'))"
      if len: "i + length (p # rest) = n"
    proof -
      from len False have ne: "rest \<noteq> []" by (cases rest) auto
      with diag' len obtain pre e' where
        d: "events' = pre @ [ErrorLogged (last_error_line e'), TracebackLogged]"
           "last outs' = Raises (Exception (Inr e'))"
        by auto
      from ne outs'_len have "outs' \<noteq> []" by auto
      with d outs have
        "?events = ([TryingPattern (i + 1), Called p] @ pre)
                     @ [ErrorLogged (last_error_line e'), TracebackLogged]
           \<and> last outs = Raises (Exception (Inr e'))"
        by simp
      then show ?thesis by blast
    qed
    from run c1 c2 c3 c4 show ?thesis by blast
  qed
qed


lemma length_try_patterns: "length (try_patterns m) = 5"
  by (simp add: try_patterns_def)

lemma try_patterns_nonempty: "try_patterns m \<noteq> []"
  by (simp add: try_patterns_def)

lemma message_loop_all_raise:
  "call_all func (concat (map try_patterns msgs)) s = (outs, s_end) \<Longrightarrow>
   (\<forall>k<length outs. \<exists>r. outs ! k = Raises (Exception r) \<and> (k mod 5 = 4 \<longrightarrow> (\<exists>e. r = Inr e))) \<Longrightarrow>
   \<exists>events. message_loop func msgs s = (Inr False, events, s_end)
      \<and> tested_of events = msgs
      \<and> calls_of events = concat (map try_patterns msgs)
      \<and> tried_of events = concat (map (\<lambda>m. [1, 2, 3, 4, 5]) msgs)
      \<and> (msgs \<noteq> [] \<longrightarrow>
            (\<exists>pre e. events = pre @ [ErrorLogged (last_error_line e), TracebackLogged]
                 \<and> last outs = Raises (Exception (Inr e))))"
proof (induction msgs arbitrary: s outs)
  case Nil
  then show ?case by simp
next
  case (Cons m rest)
  from Cons.prems(1) have "call_all func (try_patterns m @ concat (map try_patterns rest)) s = (outs, s_end)"
    by simp
  from call_all_append_split [OF this] obtain rs1 s1 rs2 where
    ca1: "call_all func (try_patterns m) s = (rs1, s1)"
    and ca2: "call_all func (concat (map try_patterns rest)) s1 = (rs2, s_end)"
    and outs: "outs = rs1 @ rs2" and len1: "length rs1 = 5"
    by (auto simp: length_try_patterns)
  have h1: "\<forall>k<length rs1. \<exists>r. rs1 ! k = Raises (Exception r) \<and> (0 + k = 5 - 1 \<longrightarrow> (\<exists>e. r = Inr e))"
  proof (intro allI impI)
    fix k assume k: "k < length rs1"
    with outs have kl: "k < length outs" and same: "outs ! k = rs1 ! k" by (simp_all add: nth_append)
    from k len1 have md: "k mod 5 = k" by simp
    from Cons.prems(2) kl obtain r where
      "outs ! k = Raises (Exception r)" "k mod 5 = 4 \<longrightarrow> (\<exists>e. r = Inr e)" by blast
    with same md have "rs1 ! k = Raises (Exception r) \<and> (0 + k = 5 - 1 \<longrightarrow> (\<exists>e. r = Inr e))"
      by simp
    then show "\<exists>r. rs1 ! k = Raises (Exception r) \<and> (0 + k = 5 - 1 \<longrightarrow> (\<exists>e. r = Inr e))" ..
  qed
  have h2: "\<forall>k<length rs2. \<exists>r. rs2 ! k = Raises (Exception r) \<and> (k mod 5 = 4 \<longrightarrow> (\<exists>e. r = Inr e))"
  proof (intro allI impI)
    fix k assume k: "k < length rs2"
    with outs len1 have kl: "5 + k < length outs" and same: "outs ! (5 + k) = rs2 ! k"
      by (simp_all add: nth_append)
    have md: "(5 + k) mod 5 = k mod 5" by simp
    from Cons.prems(2) kl obtain r where
      "outs ! (5 + k) = Raises (Exception r)" "(5 + k) mod 5 = 4 \<longrightarrow> (\<exists>e. r = Inr e)" by blast
    with same md have "rs2 ! k = Raises (Exception r) \<and> (k mod 5 = 4 \<longrightarrow> (\<exists>e. r = Inr e))"
      by simp
    then show "\<exists>r. rs2 ! k = Raises (Exception r) \<and> (k mod 5 = 4 \<longrightarrow> (\<exists>e. r = Inr e))" ..
  qed
  from pattern_loop_all_raise [OF ca1 h1] obtain ev1 where
    inner: "pattern_loop func 5 0 (try_patterns m) s = (Inr False, ev1, s1)"
    and calls1: "calls_of ev1 = try_patterns m"
    and tried1: "tried_of ev1 = map Suc [0..<0 + length (try_patterns m)]"
    and tested1: "tested_of ev1 = []"
    and diag1: "\<exists>pre e. ev1 = pre @ [ErrorLogged (last_error_line e), TracebackLogged]
                 \<and> last rs1 = Raises (Exception (Inr e))"
    using try_patterns_nonempty [of m] by (auto simp: length_try_patterns)
  from Cons.IH [OF ca2 h2] obtain ev2 where
    outer: "message_loop func rest s1 = (Inr False, ev2, s_end)"
    and tested2: "tested_of ev2 = rest"
    and calls2: "calls_of ev2 = concat (map try_patterns rest)"
    and tried2: "tried_of ev2 = concat (map (\<lambda>m. [1, 2, 3, 4, 5]) rest)"
    and diag2: "rest \<noteq> [] \<longrightarrow>
            (\<exists>pre e. ev2 = pre @ [ErrorLogged (last_error_line e), TracebackLogged]
                 \<and> last rs2 = Raises (Exception (Inr e)))"
    by blast
  let ?events = "TestingMessage m # ev1 @ ev2"
  have run: "message_loop func (m # rest) s = (Inr False, ?events, s_end)"
    using inner outer by (simp add: length_try_patterns)
  have five: "map Suc [0..<5] = [1, 2, 3, 4, 5]" by (simp add: upt_rec)
  have c1: "tested_of ?events = m # rest" using tested1 tested2 by (simp add: tested_of_append)
  have c2: "calls_of ?events = concat (map try_patterns (m # rest))"
    using calls1 calls2 by (simp add: calls_of_append)
  have c3: "tried_of ?events = concat (map (\<lambda>m. [1, 2, 3, 4, 5]) (m # rest))"
    using tried1 tried2 five by (simp add: tried_of_append length_try_patterns)
  have c4: "\<exists>pre e. ?events = pre @ [ErrorLogged (last_error_line e), TracebackLogged]
                 \<and> last outs = Raises (Exception (Inr e))"
  proof (cases "rest = []")
    case True
    with outer ca2 have "ev2 = []" "rs2 = []" by simp_all
    moreover from diag1 obtain pre e where
      "ev1 = pre @ [ErrorLogged (last_error_line e), TracebackLogged]"
      "last rs1 = Raises (Exception (Inr e))" by blast
    ultimately have "?events = (TestingMessage m # pre) @ [ErrorLogged (last_error_line e), TracebackLogged]
                 \<and> last outs = Raises (Exception (Inr e))"
      using outs by simp
    then show ?thesis by blast
  next
    case False
    with diag2 obtain pre e where
      d: "ev2 = pre @ [ErrorLogged (last_error_line e), TracebackLogged]"
         "last rs2 = Raises (Exception (Inr e))" by blast
    from False obtain m' rest' where "rest = m' # rest'" by (cases rest) auto
    moreover have "length rs2 = length (concat (map try_patterns rest))"
      using call_all_length [of func "concat (map try_patterns rest)" s1] ca2 by simp
    ultimately have "rs2 \<noteq> []" using try_patterns_nonempty [of m'] by auto
    with d outs have "?events = (TestingMessage m # ev1 @ pre) @ [ErrorLogged (last_error_line e), TracebackLogged]
                 \<and> last outs = Raises (Exception (Inr e))"
      by simp
    then show ?thesis by blast
  qed
  from run c1 c2 c3 c4 show ?case by blast
qed

lemma unprintable_run:
  "try_chatbot_function (Some unprintable) [''Hello'', ''Bye''] () =
     (Inl Uncaught,
      [TestingMessage ''Hello'',
       TryingPattern 1, Called [PyStr ''Hello''],
       TryingPattern 2, Called [PyDict [(''message'', ''Hello'')]],
       TryingPattern 3, Called [PyStr ''Hello'', PyStr ''test_user''],
       TryingPattern 4, Called [PyDict [(''message'', ''Hello''), (''user_id'', ''test_user'')]],
       TryingPattern 5, Called [PyStr (json_dumps_message ''Hello'')]],
      ())"
  by (simp add: try_chatbot_function_def try_patterns_def attempt_def unprintable_def)

text \<open>
  C3, as stated, fails: a function that raises, on every call, an instance of
  \<open>Exception\<close> whose text cannot be rendered leaves the run from the handler of the
  fifth pattern of the first message: nothing is returned and the second message is never
  tried.
\<close>

theorem unprintable_error_leaves_the_run:
  "list_all (\<lambda>args. fst (call unprintable () args) = Raises (Exception (Inl Uncaught)))
     (try_patterns ''Hello'' @ try_patterns ''Bye'')
   \<and> fst (try_chatbot_function (Some unprintable) [''Hello'', ''Bye''] ()) = Inl Uncaught
   \<and> tested_of (fst (snd (try_chatbot_function (Some unprintable) [''Hello'', ''Bye''] ()))) = [''Hello'']
   \<and> calls_of (fst (snd (try_chatbot_function (Some unprintable) [''Hello'', ''Bye''] ())))
       = try_patterns ''Hello''"
proof -
  have "list_all (\<lambda>args. fst (call unprintable () args) = Raises (Exception (Inl Uncaught)))
     (try_patterns ''Hello'' @ try_patterns ''Bye'')"
    by (simp add: unprintable_def list_all_iff)
  then show ?thesis by (simp add: unprintable_run) (simp add: try_patterns_def)
qed

text \<open>
  C3, amended. If the callable is truthy and each of its calls, made one after the other on
  the five patterns of each message, raises an instance of \<open>Exception\<close>, the one raised
  on a fifth pattern having a text that renders, the run returns failure after testing the
  messages in the order given and calling, for each of them, the five patterns in order,
  each once. With at least one message, the run ends by logging the line carrying the
  error of the very last call, a line that is not empty, and its traceback.
\<close>

theorem all_patterns_fail:
  assumes "truthy obj"
    and "call_all (call obj) (concat (map try_patterns msgs)) s = (outs, s_end)"
    and "\<forall>k<length outs. \<exists>r. outs ! k = Raises (Exception r) \<and> (k mod 5 = 4 \<longrightarrow> (\<exists>e. r = Inr e))"
  shows "\<exists>events. try_chatbot_function (Some obj) msgs s = (Inr False, events, s_end)
           \<and> tested_of events = msgs
           \<and> calls_of events = concat (map try_patterns msgs)
           \<and> tried_of events = concat (map (\<lambda>m. [1, 2, 3, 4, 5]) msgs)
           \<and> (msgs \<noteq> [] \<longrightarrow>
                (\<exists>pre e. events = pre @ [ErrorLogged (last_error_line e), TracebackLogged]
                     \<and> last outs = Raises (Exception (Inr e))
                     \<and> last_error_line e \<noteq> []))"
proof -
  from message_loop_all_raise [OF assms(2,3)] obtain events where
    run: "message_loop (call obj) msgs s = (Inr False, events, s_end)"
    and obs: "tested_of events = msgs" "calls_of events = concat (map try_patterns msgs)"
      "tried_of events = concat (map (\<lambda>m. [1, 2, 3, 4, 5]) msgs)"
    and diag: "msgs \<noteq> [] \<longrightarrow>
            (\<exists>pre e. events = pre @ [ErrorLogged (last_error_line e), TracebackLogged]
                 \<and> last outs = Raises (Exception (Inr e)))"
    by blast
  have line: "last_error_line e \<noteq> []" for e by (simp add: last_error_line_def)
  from assms(1) run have "try_chatbot_function (Some obj) msgs s = (Inr False, events, s_end)"
    by (simp add: try_chatbot_function_def)
  with obs diag line show ?thesis by blast
qed

lemma refuse_calls:
  "call_all (call refuse) (concat (map try_patterns [''Hello'', ''Bye''])) 0
     = (map (\<lambda>k. Raises (Exception (Inr (replicate k (CHR ''!''))))) [1, 2, 3, 4, 5, 6, 7, 8, 9, 10], 10)"
  by (simp add: try_patterns_def refuse_def eval_nat_numeral)

theorem all_patterns_fail_witness:
  "truthy refuse
   \<and> call_all (call refuse) (concat (map try_patterns [''Hello'', ''Bye''])) 0
       = (map (\<lambda>k. Raises (Exception (Inr (replicate k (CHR ''!''))))) [1, 2, 3, 4, 5, 6, 7, 8, 9, 10], 10)
   \<and> (\<exists>events pre.
         try_chatbot_function (Some refuse) [''Hello'', ''Bye''] 0 = (Inr False, events, 10)
       \<and> tested_of events = [''Hello'', ''Bye'']
       \<and> calls_of events = try_patterns ''Hello'' @ try_patterns ''Bye''
       \<and> tried_of events = [1, 2, 3, 4, 5, 1, 2, 3, 4, 5]
       \<and> events = pre @ [ErrorLogged (last_error_line ''!!!!!!!!!!''), TracebackLogged])"
proof -
  let ?outs = "map (\<lambda>k. Raises (Exception (Inr (replicate k (CHR ''!''))))) [1, 2, 3, 4, 5, 6, 7, 8, 9, 10 :: nat]"
  have h1: "truthy refuse" by (simp add: refuse_def)
  note h2 = refuse_calls
  have h3: "\<forall>k<length ?outs. \<exists>r. ?outs ! k = Raises (Exception r) \<and> (k mod 5 = 4 \<longrightarrow> (\<exists>e. r = Inr e))"
  proof (intro allI impI)
    fix k assume "k < length ?outs"
    then have "?outs ! k \<in> set ?outs" by (rule nth_mem)
    then have "\<exists>e. ?outs ! k = Raises (Exception (Inr e))" by auto
    then show "\<exists>r. ?outs ! k = Raises (Exception r) \<and> (k mod 5 = 4 \<longrightarrow> (\<exists>e. r = Inr e))" by blast
  qed
  have marks: "replicate 10 (CHR ''!'') = ''!!!!!!!!!!''" by (simp add: eval_nat_numeral)
  from all_patterns_fail [OF h1 h2 h3] obtain events pre e where
    run: "try_chatbot_function (Some refuse) [''Hello'', ''Bye''] 0 = (Inr False, events, 10)"
    and obs: "tested_of events = [''Hello'', ''Bye'']"
      "calls_of events = concat (map try_patterns [''Hello'', ''Bye''])"
      "tried_of events = concat (map (\<lambda>m. [1, 2, 3, 4, 5]) [''Hello'', ''Bye''])"
    and ev: "events = pre @ [ErrorLogged (last_error_line e), TracebackLogged]"
    and e: "last ?outs = Raises (Exception (Inr e))"
    by auto
  from e marks have "e = ''!!!!!!!!!!''" by simp
  with run obs ev have "try_chatbot_function (Some refuse) [''Hello'', ''Bye''] 0 = (Inr False, events, 10)
       \<and> tested_of events = [''Hello'', ''Bye'']
       \<and> calls_of events = try_patterns ''Hello'' @ try_patterns ''Bye''
       \<and> tried_of events = [1, 2, 3, 4, 5, 1, 2, 3, 4, 5]
       \<and> events = pre @ [ErrorLogged (last_error_line ''!!!!!!!!!!''), TracebackLogged]"
    by simp
  then have "\<exists>events pre.
         try_chatbot_function (Some refuse) [''Hello'', ''Bye''] 0 = (Inr False, events, 10)
       \<and> tested_of events = [''Hello'', ''Bye'']
       \<and> calls_of events = try_patterns ''Hello'' @ try_patterns ''Bye''
       \<and> tried_of events = [1, 2, 3, 4, 5, 1, 2, 3, 4, 5]
       \<and> events = pre @ [ErrorLogged (last_error_line ''!!!!!!!!!!''), TracebackLogged]"
    by blast
  with h1 h2 show ?thesis by blast
qed

section \<open>The paths through \<open>main\<close>\<close>

lemma main_no_module:
  "fs \<noteq> None \<Longrightarrow> find_chatbot_module fs = Inr None \<Longrightarrow>
     main message fs loader = (Inr (test_flask_endpoints fs), [FindChatbotModule, TestFlaskEndpoints])"
  by (simp add: main_def)

lemma main_load_escaped:
  "fs \<noteq> None \<Longrightarrow> find_chatbot_module fs = Inr (Some path) \<Longrightarrow> path \<noteq> [] \<Longrightarrow>
   load_module_from_path loader (module_name_of path) path = Inl esc \<Longrightarrow>
     main message fs loader = (Inl esc, [FindChatbotModule, LoadModule (module_name_of path) path])"
  by (simp add: main_def)

lemma main_load_failed:
  "fs \<noteq> None \<Longrightarrow> find_chatbot_module fs = Inr (Some path) \<Longrightarrow> path \<noteq> [] \<Longrightarrow>
   load_module_from_path loader (module_name_of path) path = Inr None \<Longrightarrow>
     main message fs loader = (Inr False, [FindChatbotModule, LoadModule (module_name_of path) path])"
  by (simp add: main_def)

lemma main_no_function:
  "fs \<noteq> None \<Longrightarrow> find_chatbot_module fs = Inr (Some path) \<Longrightarrow> path \<noteq> [] \<Longrightarrow>
   load_module_from_path loader (module_name_of path) path = Inr (Some (m, s)) \<Longrightarrow>
   find_api_function m = None \<or> (\<exists>f. find_api_function m = Some f \<and> \<not> truthy f) \<Longrightarrow>
     main message fs loader =
       (Inr (test_flask_endpoints fs),
        [FindChatbotModule, LoadModule (module_name_of path) path, FindApiFunction, TestFlaskEndpoints])"
  by (auto simp: main_def)

lemma main_nameless_function:
  "fs \<noteq> None \<Longrightarrow> find_chatbot_module fs = Inr (Some path) \<Longrightarrow> path \<noteq> [] \<Longrightarrow>
   load_module_from_path loader (module_name_of path) path = Inr (Some (m, s)) \<Longrightarrow>
   find_api_function m = Some f \<Longrightarrow> truthy f \<Longrightarrow> dunder_name f = None \<Longrightarrow>
     main message fs loader =
       (Inl Uncaught, [FindChatbotModule, LoadModule (module_name_of path) path, FindApiFunction])"
  by (simp add: main_def)

lemma main_invoked:
  "fs \<noteq> None \<Longrightarrow> find_chatbot_module fs = Inr (Some path) \<Longrightarrow> path \<noteq> [] \<Longrightarrow>
   load_module_from_path loader (module_name_of path) path = Inr (Some (m, s)) \<Longrightarrow>
   find_api_function m = Some f \<Longrightarrow> truthy f \<Longrightarrow> dunder_name f \<noteq> None \<Longrightarrow>
   try_chatbot_function (Some f) (test_messages message) s = (result, events, s') \<Longrightarrow>
     main message fs loader =
       (case result of
          Inl esc \<Rightarrow>
            (Inl esc,
             [FindChatbotModule, LoadModule (module_name_of path) path, FindApiFunction,
              TryChatbotFunction events])
        | Inr success \<Rightarrow>
            if success then
              (Inr True,
               [FindChatbotModule, LoadModule (module_name_of path) path, FindApiFunction,
                TryChatbotFunction events])
            else
              (Inr (test_flask_endpoints fs),
               [FindChatbotModule, LoadModule (module_name_of path) path, FindApiFunction,
                TryChatbotFunction events, TestFlaskEndpoints]))"
  by (cases result) (auto simp: main_def)

section \<open>Unreadable files during the content walk\<close>

lemma first_return_Inr:
  "(\<And>x. x \<in> set xs \<Longrightarrow> f x = Inr (g x)) \<Longrightarrow> first_return f xs = Inr (first_some g xs)"
  by (induction xs) (simp_all split: option.splits)

lemma first_some_append_hit:
  "(\<forall>z\<in>set before. g z = None) \<Longrightarrow> g x = Some y \<Longrightarrow> first_some g (before @ x # after) = Some y"
  by (induction before) simp_all

lemma content_file_hit:
  "content_file root (name, c) = Inr (if content_hit (name, c) then Some (join root name) else None)"
  by (cases c) (simp_all add: content_file_def content_try_def read_lower_def content_hit_def)

lemma content_in_dir_hit: "content_in_dir d = Inr (hit_in_dir d)"
proof -
  obtain root files where d: "d = (root, files)" by (cases d)
  have "first_return (content_file root) files
          = Inr (first_some (\<lambda>(name, c). if content_hit (name, c) then Some (join root name) else None) files)"
    by (rule first_return_Inr) (auto simp: content_file_hit)
  with d show ?thesis by (simp add: content_in_dir_def hit_in_dir_def)
qed

lemma content_match_hit: "content_match fs = Inr (first_some hit_in_dir (os_walk fs))"
  unfolding content_match_def by (rule first_return_Inr) (rule content_in_dir_hit)

lemma find_chatbot_module_returns: "\<exists>r. find_chatbot_module fs = Inr r"
  by (simp add: find_chatbot_module_def content_match_hit split: option.splits)

lemma nondirs_blank:
  "nondirs (map (\<lambda>(n, x). (n, blank_unreadable x)) es) = blank_files (nondirs es)"
  by (induction es rule: nondirs.induct) (simp_all add: blank_files_def)

lemma is_dir_blank: "is_dir (n, blank_unreadable x) = is_dir (n, x)"
  by (cases x) simp_all

lemma filter_is_dir_blank:
  "filter is_dir (map (\<lambda>(n, x). (n, blank_unreadable x)) es)
     = map (\<lambda>(n, x). (n, blank_unreadable x)) (filter is_dir es)"
  by (induction es) (auto simp: is_dir_blank)

lemma map_entries_compose:
  "map (\<lambda>(n, x). g n x) (map (\<lambda>(n, x). (n, h x)) xs) = map (\<lambda>(n, x). g n (h x)) xs"
  by (induction xs) auto

lemma concat_map_entries:
  "concat (map (\<lambda>(n, x). map F (W n x)) xs) = map F (concat (map (\<lambda>(n, x). W n x) xs))"
  by (induction xs) auto

lemma walk_blank:
  "walk root (blank_unreadable t) = map (\<lambda>(r, files). (r, blank_files files)) (walk root t)"
proof (induction root t rule: walk.induct)
  case (1 root c)
  show ?case by simp
next
  case (2 root es)
  let ?F = "\<lambda>(r, files). (r, blank_files files)"
  have "map (\<lambda>(n, x). walk (join root n) (blank_unreadable x)) (filter is_dir es)
          = map (\<lambda>(n, x). map ?F (walk (join root n) x)) (filter is_dir es)"
    using 2 by (intro map_cong refl) auto
  then have "concat (map (\<lambda>(n, x). walk (join root n) x)
               (filter is_dir (map (\<lambda>(n, x). (n, blank_unreadable x)) es)))
          = map ?F (concat (map (\<lambda>(n, x). walk (join root n) x) (filter is_dir es)))"
    by (simp only: filter_is_dir_blank map_entries_compose concat_map_entries)
  then show ?case
    by (simp only: blank_unreadable.simps walk.simps nondirs_blank list.map prod.case)
qed


lemma first_some_map: "first_some f (map g xs) = first_some (\<lambda>x. f (g x)) xs"
  by (induction xs) (simp_all split: option.splits)

lemma first_some_cong_set:
  "(\<And>x. x \<in> set xs \<Longrightarrow> f x = g x) \<Longrightarrow> first_some f xs = first_some g xs"
  by (induction xs) (simp_all split: option.splits)

lemma names_blank_files: "map fst (blank_files files) = map fst files"
  by (induction files) (auto simp: blank_files_def)

lemma exact_in_dir_blank: "exact_in_dir (r, blank_files files) = exact_in_dir (r, files)"
  by (simp only: exact_in_dir_def prod.case names_blank_files)

lemma partial_in_dir_blank: "partial_in_dir (r, blank_files files) = partial_in_dir (r, files)"
proof -
  have "first_some (\<lambda>x. case (case x of (n, c) \<Rightarrow> (n, blank c)) of
                            (file, c) \<Rightarrow> if partial_name file then Some (join r file) else None) files
          = first_some (\<lambda>(file, c). if partial_name file then Some (join r file) else None) files"
    by (rule first_some_cong_set) auto
  then show ?thesis
    by (simp add: partial_in_dir_def blank_files_def first_some_map)
qed

lemma os_walk_blank:
  "os_walk (Some (blank_unreadable t)) = map (\<lambda>(r, files). (r, blank_files files)) (os_walk (Some t))"
  by (simp add: os_walk_def walk_blank)


lemma content_hit_blank: "content_hit (name, blank c) = content_hit (name, c)"
  by (cases c) (simp_all add: content_hit_def blank_def lower_def)

lemma hit_in_dir_blank: "hit_in_dir (r, blank_files files) = hit_in_dir (r, files)"
proof -
  have "first_some (\<lambda>x. case (case x of (n, c) \<Rightarrow> (n, blank c)) of
                            (name, c) \<Rightarrow> if content_hit (name, c) then Some (join r name) else None) files
          = first_some (\<lambda>(name, c). if content_hit (name, c) then Some (join r name) else None) files"
    by (rule first_some_cong_set) (auto simp: content_hit_blank)
  then show ?thesis
    by (simp add: hit_in_dir_def blank_files_def first_some_map)
qed

lemma find_blank: "find_chatbot_module (Some (blank_unreadable t)) = find_chatbot_module (Some t)"
proof -
  have exact: "exact_match (Some (blank_unreadable t)) = exact_match (Some t)"
    by (simp add: exact_match_def os_walk_blank first_some_map case_prod_unfold
        exact_in_dir_blank [unfolded case_prod_unfold])
  have partial: "partial_match (Some (blank_unreadable t)) = partial_match (Some t)"
    by (simp add: partial_match_def os_walk_blank first_some_map case_prod_unfold
        partial_in_dir_blank)
  have content: "content_match (Some (blank_unreadable t)) = content_match (Some t)"
    by (simp add: content_match_hit os_walk_blank first_some_map case_prod_unfold
        hit_in_dir_blank)
  show ?thesis
    unfolding find_chatbot_module_def exact partial content by simp
qed

lemma hit_in_dir_None: "(\<forall>x\<in>set files. \<not> content_hit x) \<Longrightarrow> hit_in_dir (root, files) = None"
  by (auto simp: hit_in_dir_def first_some_None_iff)

text \<open>
  C9. On every tree the search returns a path or \<open>None\<close>, never an exception. Reading
  an unreadable file raises inside the \<open>try\<close>, the handler swallows it and the file
  counts as no match. The scan goes on: when the first two tiers find nothing, the first
  match in walk order is returned whatever unreadable or unmatching files come before it,
  and \<open>None\<close> is returned when there is no match. The answer is the one given when
  every unreadable file is an empty one.
\<close>

theorem unreadable_files_are_skipped:
  "(\<exists>r. find_chatbot_module fs = Inr r)
   \<and> content_try file_path None = Inl OSError
   \<and> content_file root (name, None) = Inr None
   \<and> (fs \<noteq> None \<and> exact_match fs = None \<and> partial_match fs = None
        \<and> os_walk fs = pre @ (root, before @ (name, c) # after) # post
        \<and> (\<forall>(r, files)\<in>set pre. \<forall>x\<in>set files. \<not> content_hit x)
        \<and> (\<forall>x\<in>set before. \<not> content_hit x)
        \<and> content_hit (name, c)
       \<longrightarrow> find_chatbot_module fs = Inr (Some (join root name)))
   \<and> (exact_match fs = None \<and> partial_match fs = None
        \<and> (\<forall>(r, files)\<in>set (os_walk fs). \<forall>x\<in>set files. \<not> content_hit x)
       \<longrightarrow> find_chatbot_module fs = Inr None)
   \<and> find_chatbot_module (Some (blank_unreadable t)) = find_chatbot_module (Some t)"
proof (intro conjI impI)
  show "\<exists>r. find_chatbot_module fs = Inr r" by (rule find_chatbot_module_returns)
  show "content_try file_path None = Inl OSError"
    by (simp add: content_try_def read_lower_def)
  show "content_file root (name, None) = Inr None"
    by (simp add: content_file_hit content_hit_def)
  show "find_chatbot_module (Some (blank_unreadable t)) = find_chatbot_module (Some t)"
    by (rule find_blank)
next
  assume a: "fs \<noteq> None \<and> exact_match fs = None \<and> partial_match fs = None
        \<and> os_walk fs = pre @ (root, before @ (name, c) # after) # post
        \<and> (\<forall>(r, files)\<in>set pre. \<forall>x\<in>set files. \<not> content_hit x)
        \<and> (\<forall>x\<in>set before. \<not> content_hit x)
        \<and> content_hit (name, c)"
  then have earlier: "\<forall>d\<in>set pre. hit_in_dir d = None"
    by (auto simp: hit_in_dir_None)
  from a have "first_some (\<lambda>(name, c). if content_hit (name, c) then Some (join root name) else None)
                 (before @ (name, c) # after) = Some (join root name)"
    by (intro first_some_append_hit) auto
  then have here: "hit_in_dir (root, before @ (name, c) # after) = Some (join root name)"
    by (simp add: hit_in_dir_def)
  from a earlier here have "first_some hit_in_dir (os_walk fs) = Some (join root name)"
    by (simp add: first_some_append_hit)
  with a show "find_chatbot_module fs = Inr (Some (join root name))"
    by (simp add: find_chatbot_module_def content_match_hit)
next
  assume a: "exact_match fs = None \<and> partial_match fs = None
        \<and> (\<forall>(r, files)\<in>set (os_walk fs). \<forall>x\<in>set files. \<not> content_hit x)"
  then have "\<forall>d\<in>set (os_walk fs). hit_in_dir d = None"
    by (auto simp: hit_in_dir_None)
  then have "first_some hit_in_dir (os_walk fs) = None"
    by (simp add: first_some_None_iff)
  with a show "find_chatbot_module fs = Inr None"
    by (simp add: find_chatbot_module_def content_match_hit)
qed


lemma walk_locked:
  "os_walk (Some tree_with_locked_file)
     = [] @ (''CoreShare'', [(''locked.py'', None)] @ (''notes.py'', Some ''Cori Chatbot notes'') # []) # []"
  by (simp add: os_walk_def tree_with_locked_file_def REPO_DIR_def)

lemma tiers_locked:
  "exact_match (Some tree_with_locked_file) = None \<and> partial_match (Some tree_with_locked_file) = None"
proof -
  have "exact_in_dir (''CoreShare'', [(''locked.py'', None), (''notes.py'', Some ''Cori Chatbot notes'')]) = None"
    unfolding exact_in_dir_None_iff by code_simp
  moreover have "\<not> partial_name ''locked.py''" "\<not> partial_name ''notes.py''" by code_simp+
  ultimately show ?thesis
    by (simp add: exact_match_def partial_match_def partial_in_dir_def walk_locked)
qed

lemma hits_locked:
  "\<not> content_hit (''locked.py'', None) \<and> content_hit (''notes.py'', Some ''Cori Chatbot notes'')"
  by code_simp

lemma walk_empty_root: "os_walk (Some (Dir [])) = [(REPO_DIR, [])]"
  by (simp add: os_walk_def)

lemma tiers_empty_root:
  "exact_match (Some (Dir [])) = None \<and> partial_match (Some (Dir [])) = None"
proof -
  have "exact_in_dir (REPO_DIR, []) = None" by (simp add: exact_in_dir_None_iff)
  then show ?thesis
    by (simp add: exact_match_def partial_match_def partial_in_dir_def walk_empty_root)
qed

theorem unreadable_files_are_skipped_witness:
  "Some tree_with_locked_file \<noteq> None
   \<and> exact_match (Some tree_with_locked_file) = None
   \<and> partial_match (Some tree_with_locked_file) = None
   \<and> os_walk (Some tree_with_locked_file)
       = [] @ (''CoreShare'', [(''locked.py'', None)] @ (''notes.py'', Some ''Cori Chatbot notes'') # []) # []
   \<and> \<not> content_hit (''locked.py'', None)
   \<and> content_hit (''notes.py'', Some ''Cori Chatbot notes'')
   \<and> find_chatbot_module (Some tree_with_locked_file) = Inr (Some ''CoreShare/notes.py'')
   \<and> os_walk (Some (Dir [])) = [(REPO_DIR, [])]
   \<and> find_chatbot_module (Some (Dir [])) = Inr None"
proof -
  have path: "join ''CoreShare'' ''notes.py'' = ''CoreShare/notes.py''" by code_simp
  have "find_chatbot_module (Some tree_with_locked_file) = Inr (Some (join ''CoreShare'' ''notes.py''))"
    using unreadable_files_are_skipped
      [where fs = "Some tree_with_locked_file" and pre = "[]" and root = "''CoreShare''"
         and before = "[(''locked.py'', None)]" and name = "''notes.py''"
         and c = "Some ''Cori Chatbot notes''" and after = "[]" and post = "[]"]
      walk_locked tiers_locked hits_locked
    by simp
  moreover have none: "\<forall>(r, files)\<in>set (os_walk (Some (Dir []))). \<forall>x\<in>set files. \<not> content_hit x"
    by (simp add: walk_empty_root)
  moreover have "find_chatbot_module (Some (Dir [])) = Inr None"
    using unreadable_files_are_skipped [where fs = "Some (Dir [])"] tiers_empty_root none
    by blast
  ultimately show ?thesis using walk_locked tiers_locked hits_locked path walk_empty_root by simp
qed

section \<open>The Flask gate of the route scan\<close>

lemma lines_flask_chat:
  "readlines flask_chat_text
     = [''from flask import Flask'' @ [CHR 0x0A],
        ''@app.route('' @ [CHR 0x22] @ ''/chat'' @ [CHR 0x22] @ '')'' @ [CHR 0x0A],
        ''def respond():'' @ [CHR 0x0A]]"
  by code_simp

lemma gate_flask_chat: "flask_gate (lower (translate_newlines flask_chat_text))"
  by code_simp

lemma gate_route_chat: "\<not> flask_gate (lower (translate_newlines route_chat_text))"
  by code_simp

lemma no_phrase_flask_chat:
  "\<not> sublist ''chat with cori'' (lower (translate_newlines flask_chat_text)) \<and> \<not> sublist ''cori chatbot'' (lower (translate_newlines flask_chat_text))"
  by code_simp

lemma scan_flask_chat:
  "scan_lines p (readlines flask_chat_text) = [(''/chat'', ''respond'', p)]"
proof -
  have l1: "\<not> route_line (lower (''from flask import Flask'' @ [CHR 0x0A]))" by code_simp
  have l2: "route_line (lower (''@app.route('' @ [CHR 0x22] @ ''/chat'' @ [CHR 0x22] @ '')'' @ [CHR 0x0A]))"
    by code_simp
  have l3: "\<not> route_line (lower (''def respond():'' @ [CHR 0x0A]))" by code_simp
  have ex: "extract_route (''@app.route('' @ [CHR 0x22] @ ''/chat'' @ [CHR 0x22] @ '')'' @ [CHR 0x0A])
              [''def respond():'' @ [CHR 0x0A]] = Inr (''/chat'', ''respond'')"
    by code_simp
  show ?thesis
    by (simp only: lines_flask_chat scan_lines.simps l1 l2 l3 ex if_True if_False sum.case prod.case)
qed


lemma scan_lines_path: "(r, f, p') \<in> set (scan_lines p ls) \<Longrightarrow> p' = p"
  by (induction ls) (auto split: if_splits sum.splits)

lemma scan_file_path: "(r, f, p') \<in> set (scan_file (p, c)) \<Longrightarrow> p' = p"
  by (auto simp: scan_file_def split: option.splits dest: scan_lines_path)

lemma app_file_gate:
  assumes "(p, c) \<in> set (app_file root (file, c'))"
  shows "p = join root file \<and> c = c' \<and> suffix ''.py'' file
         \<and> (\<exists>text. c' = Some text \<and> flask_gate (lower (translate_newlines text)))"
  using assms
  by (auto simp: app_file_def read_lower_def split: if_splits option.splits sum.splits)

lemma app_files_gate:
  assumes "(p, c) \<in> set (app_files fs)"
  shows "\<exists>root files file text.
           (root, files) \<in> set (os_walk fs) \<and> (file, Some text) \<in> set files
         \<and> p = join root file \<and> c = Some text \<and> suffix ''.py'' file
         \<and> flask_gate (lower (translate_newlines text))"
proof -
  from assms obtain root files name c' where
    w: "(root, files) \<in> set (os_walk fs)" and f: "(name, c') \<in> set files"
    and a: "(p, c) \<in> set (app_file root (name, c'))"
    by (auto simp: app_files_def)
  from app_file_gate [OF a] obtain body where
    "p = join root name" "c = c'" "suffix ''.py'' name" "c' = Some body"
    "flask_gate (lower (translate_newlines body))"
    by blast
  with w f show ?thesis by blast
qed

lemma walk_one_file: "os_walk (one_file name body) = [(REPO_DIR, [(name, Some body)])]"
  by (simp add: os_walk_def one_file_def)

lemma find_one_file_None:
  assumes "name \<notin> set patterns" and "\<not> partial_name name"
    and "\<not> sublist ''chat with cori'' (lower (translate_newlines body))"
    and "\<not> sublist ''cori chatbot'' (lower (translate_newlines body))"
  shows "find_chatbot_module (one_file name body) = Inr None"
proof -
  from assms(1) have "exact_in_dir (REPO_DIR, [(name, Some body)]) = None"
    by (auto simp: exact_in_dir_None_iff)
  then have exact: "exact_match (one_file name body) = None"
    by (simp add: exact_match_def walk_one_file)
  from assms(2) have partial: "partial_match (one_file name body) = None"
    by (simp add: partial_match_def partial_in_dir_def walk_one_file)
  from assms(3,4) have content: "content_match (one_file name body) = Inr None"
    by (simp add: content_match_def content_in_dir_def walk_one_file content_file_def
        content_try_def read_lower_def)
  have "one_file name body \<noteq> None" by (simp add: one_file_def)
  then show ?thesis by (simp add: find_chatbot_module_def exact partial content)
qed

lemma app_files_one_file:
  "app_files (one_file name body)
     = (if suffix ''.py'' name \<and> flask_gate (lower (translate_newlines body))
        then [(join REPO_DIR name, Some body)] else [])"
  by (simp add: app_files_def walk_one_file app_file_def read_lower_def)

lemma no_phrase_route_chat:
  "\<not> sublist ''chat with cori'' (lower (translate_newlines route_chat_text)) \<and> \<not> sublist ''cori chatbot'' (lower (translate_newlines route_chat_text))"
  by code_simp

lemma server_py_plain: "''server.py'' \<notin> set patterns \<and> \<not> partial_name ''server.py'' \<and> suffix ''.py'' ''server.py''"
  by code_simp

lemma app_files_flask_chat:
  "suffix ''.py'' name \<Longrightarrow>
     app_files (one_file name flask_chat_text) = [(join REPO_DIR name, Some flask_chat_text)]"
  by (simp add: app_files_one_file gate_flask_chat)

lemma endpoints_flask_chat:
  "suffix ''.py'' name \<Longrightarrow>
     chatbot_endpoints (one_file name flask_chat_text) = [(''/chat'', ''respond'', join REPO_DIR name)]"
  by (simp add: chatbot_endpoints_def app_files_flask_chat scan_file_def scan_flask_chat)

lemma join_server_py: "join REPO_DIR ''server.py'' = ''CoreShare/server.py''"
  by code_simp

text \<open>
  C10. Every endpoint the fallback records lies in a \<open>.py\<close> file of the walk that could
  be read and whose lowered text has a Flask import (\<open>from flask import\<close> or
  \<open>import flask\<close>) and one of \<open>chat\<close>, \<open>cori\<close>, \<open>bot\<close>; a file whose text fails
  this test is not put on the list of files to scan, whatever route lines it holds.
\<close>

theorem endpoints_only_from_flask_files:
  "((route, func_name, file_path) \<in> set (chatbot_endpoints fs)
      \<longrightarrow> (\<exists>root files file text.
             (root, files) \<in> set (os_walk fs) \<and> (file, Some text) \<in> set files
           \<and> file_path = join root file \<and> suffix ''.py'' file
           \<and> flask_gate (lower (translate_newlines text))))
   \<and> (\<not> flask_gate (lower (translate_newlines text')) \<longrightarrow> app_file root' (file', Some text') = [])"
proof (intro conjI impI)
  assume "(route, func_name, file_path) \<in> set (chatbot_endpoints fs)"
  then obtain p c where pc: "(p, c) \<in> set (app_files fs)"
    and e: "(route, func_name, file_path) \<in> set (scan_file (p, c))"
    by (auto simp: chatbot_endpoints_def)
  from scan_file_path [OF e] have "file_path = p" .
  with app_files_gate [OF pc]
  show "\<exists>root files file text.
             (root, files) \<in> set (os_walk fs) \<and> (file, Some text) \<in> set files
           \<and> file_path = join root file \<and> suffix ''.py'' file
           \<and> flask_gate (lower (translate_newlines text))"
    by blast
next
  assume "\<not> flask_gate (lower (translate_newlines text'))"
  then show "app_file root' (file', Some text') = []"
    by (simp add: app_file_def read_lower_def)
qed



theorem endpoints_only_from_flask_files_witness:
  "(''/chat'', ''respond'', ''CoreShare/server.py'')
      \<in> set (chatbot_endpoints (one_file ''server.py'' flask_chat_text))
   \<and> (\<exists>root files file text.
          (root, files) \<in> set (os_walk (one_file ''server.py'' flask_chat_text))
        \<and> (file, Some text) \<in> set files
        \<and> ''CoreShare/server.py'' = join root file \<and> suffix ''.py'' file
        \<and> flask_gate (lower (translate_newlines text)))
   \<and> \<not> flask_gate (lower (translate_newlines route_chat_text))
   \<and> app_file REPO_DIR (''server.py'', Some route_chat_text) = []"
proof -
  have h1: "(''/chat'', ''respond'', ''CoreShare/server.py'')
              \<in> set (chatbot_endpoints (one_file ''server.py'' flask_chat_text))"
    using server_py_plain by (simp add: endpoints_flask_chat join_server_py)
  note h2 = gate_route_chat
  from endpoints_only_from_flask_files
    [of "''/chat''" "''respond''" "''CoreShare/server.py''" "one_file ''server.py'' flask_chat_text"
        route_chat_text REPO_DIR "''server.py''"]
    h1 h2
  show ?thesis by blast
qed

section \<open>The route-only scenario\<close>

text \<open>
  C7, as stated, fails: with one file holding only the route line and the handler line,
  the search finds no module, the fallback finds no Flask file, no endpoint is extracted
  and the verdict is failure.
\<close>

theorem route_only_file_fails:
  "find_chatbot_module (one_file ''server.py'' route_chat_text) = Inr None
   \<and> chatbot_endpoints (one_file ''server.py'' route_chat_text) = []
   \<and> main None (one_file ''server.py'' route_chat_text) failing_loader
       = (Inr False, [FindChatbotModule, TestFlaskEndpoints])"
proof -
  have found: "find_chatbot_module (one_file ''server.py'' route_chat_text) = Inr None"
    using server_py_plain no_phrase_route_chat by (simp add: find_one_file_None)
  have apps: "app_files (one_file ''server.py'' route_chat_text) = []"
    by (simp add: app_files_one_file gate_route_chat)
  have routes: "chatbot_endpoints (one_file ''server.py'' route_chat_text) = []"
    by (simp add: chatbot_endpoints_def apps)
  have "one_file ''server.py'' route_chat_text \<noteq> None" by (simp add: one_file_def)
  then have "main None (one_file ''server.py'' route_chat_text) failing_loader
               = (Inr False, [FindChatbotModule, TestFlaskEndpoints])"
    by (simp add: main_no_module found test_flask_endpoints_def apps)
  with found routes show ?thesis by simp
qed

text \<open>
  C7, amended. With one \<open>.py\<close> file, named by none of the exact patterns and holding
  none of the name keywords, whose text is the line \<open>from flask import Flask\<close> followed by
  the route line and the handler line, the search finds no module, the fallback extracts
  the one endpoint \<open>/chat\<close> with handler \<open>respond\<close>, and the verdict is success.
\<close>

theorem flask_route_file_succeeds:
  assumes "suffix ''.py'' name" and "name \<notin> set patterns" and "\<not> partial_name name"
  shows "find_chatbot_module (one_file name flask_chat_text) = Inr None
         \<and> chatbot_endpoints (one_file name flask_chat_text)
             = [(''/chat'', ''respond'', join REPO_DIR name)]
         \<and> main message (one_file name flask_chat_text) loader
             = (Inr True, [FindChatbotModule, TestFlaskEndpoints])"
proof -
  have found: "find_chatbot_module (one_file name flask_chat_text) = Inr None"
    using assms(2,3) no_phrase_flask_chat by (simp add: find_one_file_None)
  have apps: "app_files (one_file name flask_chat_text) = [(join REPO_DIR name, Some flask_chat_text)]"
    using assms(1) by (rule app_files_flask_chat)
  have routes: "chatbot_endpoints (one_file name flask_chat_text)
                  = [(''/chat'', ''respond'', join REPO_DIR name)]"
    using assms(1) by (rule endpoints_flask_chat)
  have "one_file name flask_chat_text \<noteq> None" by (simp add: one_file_def)
  then have "main message (one_file name flask_chat_text) loader
               = (Inr True, [FindChatbotModule, TestFlaskEndpoints])"
    by (simp add: main_no_module found test_flask_endpoints_def apps routes)
  with found routes show ?thesis by simp
qed


theorem flask_route_file_succeeds_witness:
  "suffix ''.py'' ''server.py'' \<and> ''server.py'' \<notin> set patterns \<and> \<not> partial_name ''server.py''
   \<and> find_chatbot_module (one_file ''server.py'' flask_chat_text) = Inr None
   \<and> chatbot_endpoints (one_file ''server.py'' flask_chat_text)
       = [(''/chat'', ''respond'', ''CoreShare/server.py'')]
   \<and> main None (one_file ''server.py'' flask_chat_text) failing_loader
       = (Inr True, [FindChatbotModule, TestFlaskEndpoints])"
proof -
  have h1: "suffix ''.py'' ''server.py''" and h2: "''server.py'' \<notin> set patterns"
    and h3: "\<not> partial_name ''server.py''"
    using server_py_plain by simp_all
  from flask_route_file_succeeds [OF h1 h2 h3, of None failing_loader] h1 h2 h3 join_server_py
  show ?thesis by simp
qed

section \<open>Which lines the route scan records\<close>

lemma lines_flask_handler:
  "readlines flask_handler_text
     = [''from flask import Flask'' @ [CHR 0x0A],
        ''@app.route('' @ [CHR 0x22] @ ''/api/x'' @ [CHR 0x22] @ '')'' @ [CHR 0x0A],
        ''def handle_chat():'' @ [CHR 0x0A]]"
  by code_simp

lemma gate_flask_handler: "flask_gate (lower (translate_newlines flask_handler_text))"
  by code_simp

lemma scan_flask_handler: "scan_lines p (readlines flask_handler_text) = []"
proof -
  have l1: "\<not> route_line (lower (''from flask import Flask'' @ [CHR 0x0A]))" by code_simp
  have l2: "\<not> route_line (lower (''@app.route('' @ [CHR 0x22] @ ''/api/x'' @ [CHR 0x22] @ '')'' @ [CHR 0x0A]))"
    by code_simp
  have l3: "\<not> route_line (lower (''def handle_chat():'' @ [CHR 0x0A]))" by code_simp
  show ?thesis
    by (simp only: lines_flask_handler scan_lines.simps l1 l2 l3 if_False)
qed

text \<open>
  C6, as stated, fails: in a scanned Flask file, a route line without a keyword is not
  recorded although the handler line right after it holds the keyword \<open>chat\<close>.
\<close>

theorem next_line_keyword_not_recorded:
  "app_files (one_file ''server.py'' flask_handler_text)
     = [(''CoreShare/server.py'', Some flask_handler_text)]
   \<and> readlines flask_handler_text
     = [''from flask import Flask'' @ [CHR 0x0A],
        ''@app.route('' @ [CHR 0x22] @ ''/api/x'' @ [CHR 0x22] @ '')'' @ [CHR 0x0A],
        ''def handle_chat():'' @ [CHR 0x0A]]
   \<and> sublist ''@app.route'' (lower (''@app.route('' @ [CHR 0x22] @ ''/api/x'' @ [CHR 0x22] @ '')'' @ [CHR 0x0A]))
   \<and> sublist ''chat'' (lower (''def handle_chat():'' @ [CHR 0x0A]))
   \<and> chatbot_endpoints (one_file ''server.py'' flask_handler_text) = []"
proof -
  have apps: "app_files (one_file ''server.py'' flask_handler_text)
                = [(''CoreShare/server.py'', Some flask_handler_text)]"
    using server_py_plain by (simp add: app_files_one_file gate_flask_handler join_server_py)
  have routes: "chatbot_endpoints (one_file ''server.py'' flask_handler_text) = []"
    by (simp add: chatbot_endpoints_def apps scan_file_def scan_flask_handler)
  have marker: "sublist ''@app.route''
                  (lower (''@app.route('' @ [CHR 0x22] @ ''/api/x'' @ [CHR 0x22] @ '')'' @ [CHR 0x0A]))"
    by code_simp
  have keyword: "sublist ''chat'' (lower (''def handle_chat():'' @ [CHR 0x0A]))"
    by code_simp
  from apps lines_flask_handler marker keyword routes show ?thesis by simp
qed

lemma scan_lines_records:
  assumes "route_line (lower line)" and "extract_route line rest = Inr (route, func_name)"
  shows "earlier_extract pre (line # rest) \<Longrightarrow>
           (route, func_name, file_path) \<in> set (scan_lines file_path (pre @ line # rest))"
proof (induction pre)
  case Nil
  from assms show ?case by simp
next
  case (Cons a pre)
  from Cons.prems have here: "route_line (lower a) \<longrightarrow> (\<exists>x. extract_route a (pre @ line # rest) = Inr x)"
    and later: "earlier_extract pre (line # rest)"
    by (auto split: if_splits sum.splits)
  from Cons.IH [OF later] here show ?case
    by (auto split: sum.splits)
qed

lemma scan_lines_recorded:
  "(route, func_name, p) \<in> set (scan_lines file_path content) \<Longrightarrow>
     \<exists>pre line rest. content = pre @ line # rest \<and> route_line (lower line)
        \<and> extract_route line rest = Inr (route, func_name)
        \<and> earlier_extract pre (line # rest)"
proof (induction content)
  case Nil
  then show ?case by simp
next
  case (Cons a content)
  show ?case
  proof (cases "route_line (lower a)")
    case False
    with Cons.prems have "(route, func_name, p) \<in> set (scan_lines file_path content)" by simp
    from Cons.IH [OF this] obtain pre line rest where
      d: "content = pre @ line # rest" "route_line (lower line)"
         "extract_route line rest = Inr (route, func_name)" "earlier_extract pre (line # rest)"
      by blast
    from d(4) False have "earlier_extract (a # pre) (line # rest)"
      by simp
    with d have "a # content = (a # pre) @ line # rest \<and> route_line (lower line)
        \<and> extract_route line rest = Inr (route, func_name)
        \<and> earlier_extract (a # pre) (line # rest)" by simp
    then show ?thesis by blast
  next
    case True
    show ?thesis
    proof (cases "extract_route a content")
      case (Inl e)
      with True Cons.prems show ?thesis by simp
    next
      case (Inr x)
      obtain r0 f0 where x: "x = (r0, f0)" by (cases x)
      from True Inr x Cons.prems
      consider "(route, func_name) = (r0, f0)"
        | "(route, func_name, p) \<in> set (scan_lines file_path content)"
        by auto
      then show ?thesis
      proof cases
        case 1
        with True Inr x have "a # content = [] @ a # content \<and> route_line (lower a)
          \<and> extract_route a content = Inr (route, func_name)
          \<and> earlier_extract [] (a # content)"
          by simp
        then show ?thesis by blast
      next
        case 2
        from Cons.IH [OF this] obtain pre line rest where
          d: "content = pre @ line # rest" "route_line (lower line)"
             "extract_route line rest = Inr (route, func_name)" "earlier_extract pre (line # rest)"
          by blast
        from d(1,4) Inr have "earlier_extract (a # pre) (line # rest)"
          by simp
        with d have "a # content = (a # pre) @ line # rest \<and> route_line (lower line)
            \<and> extract_route line rest = Inr (route, func_name)
            \<and> earlier_extract (a # pre) (line # rest)" by simp
        then show ?thesis by blast
      qed
    qed
  qed
qed

text \<open>
  C6, amended. A line of a scanned file yields an endpoint exactly when the line itself,
  lowered, holds \<open>@app.route\<close> or \<open>@blueprint.route\<close> together with \<open>chat\<close>,
  \<open>message\<close> or \<open>cori\<close>, the route and the function name can be cut out of it and of
  the line right after it, and no matching line before it failed to extract. Keywords on
  the following line play no part.
\<close>

theorem route_recorded_iff:
  "(route, func_name, p) \<in> set (scan_lines file_path content) \<longleftrightarrow>
     p = file_path
     \<and> (\<exists>pre line rest. content = pre @ line # rest \<and> route_line (lower line)
           \<and> extract_route line rest = Inr (route, func_name)
           \<and> earlier_extract pre (line # rest))"
proof
  assume a: "(route, func_name, p) \<in> set (scan_lines file_path content)"
  from scan_lines_path [OF a] scan_lines_recorded [OF a]
  show "p = file_path
     \<and> (\<exists>pre line rest. content = pre @ line # rest \<and> route_line (lower line)
           \<and> extract_route line rest = Inr (route, func_name)
           \<and> earlier_extract pre (line # rest))" by blast
next
  assume "p = file_path
     \<and> (\<exists>pre line rest. content = pre @ line # rest \<and> route_line (lower line)
           \<and> extract_route line rest = Inr (route, func_name)
           \<and> earlier_extract pre (line # rest))"
  then show "(route, func_name, p) \<in> set (scan_lines file_path content)"
    using scan_lines_records by blast
qed

theorem route_recorded_iff_witness:
  "readlines flask_chat_text
     = [''from flask import Flask'' @ [CHR 0x0A]]
       @ (''@app.route('' @ [CHR 0x22] @ ''/chat'' @ [CHR 0x22] @ '')'' @ [CHR 0x0A])
       # [''def respond():'' @ [CHR 0x0A]]
   \<and> route_line (lower (''@app.route('' @ [CHR 0x22] @ ''/chat'' @ [CHR 0x22] @ '')'' @ [CHR 0x0A]))
   \<and> extract_route (''@app.route('' @ [CHR 0x22] @ ''/chat'' @ [CHR 0x22] @ '')'' @ [CHR 0x0A])
        [''def respond():'' @ [CHR 0x0A]] = Inr (''/chat'', ''respond'')
   \<and> earlier_extract [''from flask import Flask'' @ [CHR 0x0A]]
        ((''@app.route('' @ [CHR 0x22] @ ''/chat'' @ [CHR 0x22] @ '')'' @ [CHR 0x0A])
         # [''def respond():'' @ [CHR 0x0A]])
   \<and> (''/chat'', ''respond'', ''CoreShare/server.py'')
        \<in> set (scan_lines ''CoreShare/server.py'' (readlines flask_chat_text))"
proof -
  let ?l0 = "''from flask import Flask'' @ [CHR 0x0A]"
  let ?l1 = "''@app.route('' @ [CHR 0x22] @ ''/chat'' @ [CHR 0x22] @ '')'' @ [CHR 0x0A]"
  let ?l2 = "''def respond():'' @ [CHR 0x0A]"
  have h1: "readlines flask_chat_text = [?l0] @ ?l1 # [?l2]"
    using lines_flask_chat by simp
  have h2: "route_line (lower ?l1)" by code_simp
  have h3: "extract_route ?l1 [?l2] = Inr (''/chat'', ''respond'')" by code_simp
  have h4: "earlier_extract [?l0] (?l1 # [?l2])" by code_simp
  from route_recorded_iff
    [of "''/chat''" "''respond''" "''CoreShare/server.py''" "''CoreShare/server.py''"
        "readlines flask_chat_text"]
    h1 h2 h3 h4
  have "(''/chat'', ''respond'', ''CoreShare/server.py'')
          \<in> set (scan_lines ''CoreShare/server.py'' (readlines flask_chat_text))"
    by blast
  with h1 h2 h3 h4 show ?thesis by blast
qed

section \<open>The keyword pass of \<open>find_api_function\<close>\<close>

lemma dir_two_handlers: "dir_names two_handlers = [''chat_handler'', ''reply_to_message'']"
  unfolding dir_names_def two_handlers_def list.map fst_conv by code_simp

lemma pass1_two_handlers: "first_some (callable_attr two_handlers) function_candidates = None"
  unfolding first_some_None_iff
  by (simp add: function_candidates_def callable_attr_def two_handlers_def)

lemma relevant_chat_handler: "relevant_attr two_handlers ''chat_handler'' = Some second_handler"
proof -
  have "\<not> prefix ''_'' ''chat_handler''" by code_simp
  moreover have "any_in [''chat'', ''message'', ''response'', ''cori''] (lower ''chat_handler'')"
    by code_simp
  ultimately show ?thesis by (simp add: relevant_attr_def two_handlers_def)
qed

lemma find_two_handlers: "find_api_function two_handlers = Some second_handler"
  by (simp add: find_api_function_def pass1_two_handlers dir_two_handlers relevant_chat_handler)

text \<open>
  C5, as stated, fails: for a module that defines \<open>reply_to_message\<close> first and
  \<open>chat_handler\<close> second, both callable, public and keyword-named, and no name of the
  priority list, the function returned is the second one defined.
\<close>

theorem second_defined_is_returned:
  "map fst two_handlers = [''reply_to_message'', ''chat_handler'']
   \<and> first_some (callable_attr two_handlers) function_candidates = None
   \<and> relevant_attr two_handlers ''reply_to_message'' = Some first_handler
   \<and> relevant_attr two_handlers ''chat_handler'' = Some second_handler
   \<and> map_option (\<lambda>f. fst (call f () [])) (find_api_function two_handlers) = Some (Returns (Inr ''second''))"
proof -
  have "\<not> prefix ''_'' ''reply_to_message''" by code_simp
  moreover have "any_in [''chat'', ''message'', ''response'', ''cori''] (lower ''reply_to_message'')"
    by code_simp
  ultimately have "relevant_attr two_handlers ''reply_to_message'' = Some first_handler"
    by (simp add: relevant_attr_def two_handlers_def)
  then show ?thesis
    by (simp add: find_two_handlers pass1_two_handlers relevant_chat_handler second_handler_def)
      (simp add: two_handlers_def)
qed

lemma relevant_attr_in_dir: "relevant_attr m n \<noteq> None \<Longrightarrow> n \<in> set (dir_names m)"
  by (auto simp: relevant_attr_def dir_names_def split: if_splits option.splits attr.splits
      dest: map_of_SomeD intro: rev_image_eqI)

lemma sorted_dir_names: "sorted (dir_names m)"
  by (simp add: dir_names_def)

lemma first_some_sorted_least:
  assumes "sorted xs" and "xs = pre @ x # post" and "\<forall>z\<in>set pre. g z = None"
    and "y \<in> set xs" and "g y \<noteq> None"
  shows "x \<le> y"
proof -
  from assms(2,4) consider "y \<in> set pre" | "y = x" | "y \<in> set post" by auto
  then show ?thesis
  proof cases
    case 1
    with assms(3,5) have False by auto
    then show ?thesis ..
  next
    case 2
    then show ?thesis by simp
  next
    case 3
    with assms(1,2) show ?thesis by (simp add: sorted_append)
  qed
qed

lemma relevant_attr_Some_iff:
  "relevant_attr m n = Some f \<longleftrightarrow>
     \<not> prefix ''_'' n \<and> map_of m n = Some (Callable f)
     \<and> any_in [''chat'', ''message'', ''response'', ''cori''] (lower n)"
  by (auto simp: relevant_attr_def split: if_splits option.splits attr.splits)

lemma keyword_pass_least:
  assumes "first_some (callable_attr m) function_candidates = None"
  shows "find_api_function m = Some f \<longleftrightarrow>
           (\<exists>n. relevant_attr m n = Some f \<and> (\<forall>n'. relevant_attr m n' \<noteq> None \<longrightarrow> n \<le> n'))"
proof
  assume "find_api_function m = Some f"
  with assms have "first_some (relevant_attr m) (dir_names m) = Some f"
    by (simp add: find_api_function_def)
  from first_some_SomeD [OF this] obtain pre n post where
    d: "dir_names m = pre @ n # post" "\<forall>z\<in>set pre. relevant_attr m z = None"
       "relevant_attr m n = Some f"
    by blast
  have "n \<le> n'" if "relevant_attr m n' \<noteq> None" for n'
    using first_some_sorted_least [OF sorted_dir_names d(1) d(2) relevant_attr_in_dir [OF that] that] .
  with d(3) show "\<exists>n. relevant_attr m n = Some f \<and> (\<forall>n'. relevant_attr m n' \<noteq> None \<longrightarrow> n \<le> n')"
    by blast
next
  assume "\<exists>n. relevant_attr m n = Some f \<and> (\<forall>n'. relevant_attr m n' \<noteq> None \<longrightarrow> n \<le> n')"
  then obtain n where n: "relevant_attr m n = Some f"
    and least: "\<forall>n'. relevant_attr m n' \<noteq> None \<longrightarrow> n \<le> n'"
    by blast
  from n have "n \<in> set (dir_names m)" by (simp add: relevant_attr_in_dir)
  with n have "first_some (relevant_attr m) (dir_names m) \<noteq> None"
    by (auto simp: first_some_None_iff)
  then obtain f' where f': "first_some (relevant_attr m) (dir_names m) = Some f'" by blast
  from first_some_SomeD [OF this] obtain pre n'' post where
    d: "dir_names m = pre @ n'' # post" "\<forall>z\<in>set pre. relevant_attr m z = None"
       "relevant_attr m n'' = Some f'"
    by blast
  from n have nn: "relevant_attr m n \<noteq> None" by simp
  have "n'' \<le> n"
    using first_some_sorted_least [OF sorted_dir_names d(1) d(2) relevant_attr_in_dir [OF nn] nn] .
  moreover from least d(3) have "n \<le> n''" by simp
  ultimately have "n'' = n" by simp
  with d(3) n have "f' = f" by simp
  with f' assms show "find_api_function m = Some f"
    by (simp add: find_api_function_def)
qed


text \<open>
  C5, amended. When no name of the priority list is a callable attribute, the function
  returned is the callable, public attribute with a keyword (\<open>chat\<close>, \<open>message\<close>,
  \<open>response\<close>, \<open>cori\<close>) in its lowered name whose name is least in the order of
  \<open>dir\<close>, the sorted order of the names; there is none exactly when no attribute
  qualifies.
\<close>

theorem keyword_pass_returns_least_name:
  assumes "first_some (callable_attr m) function_candidates = None"
  shows "find_api_function m = Some f \<longleftrightarrow>
           (\<exists>n. \<not> prefix ''_'' n \<and> map_of m n = Some (Callable f)
                \<and> any_in [''chat'', ''message'', ''response'', ''cori''] (lower n)
                \<and> (\<forall>n' f'. \<not> prefix ''_'' n' \<and> map_of m n' = Some (Callable f')
                            \<and> any_in [''chat'', ''message'', ''response'', ''cori''] (lower n')
                       \<longrightarrow> n \<le> n'))"
proof -
  have "(\<forall>n'. relevant_attr m n' \<noteq> None \<longrightarrow> n \<le> n')
          \<longleftrightarrow> (\<forall>n' f'. \<not> prefix ''_'' n' \<and> map_of m n' = Some (Callable f')
                            \<and> any_in [''chat'', ''message'', ''response'', ''cori''] (lower n')
                       \<longrightarrow> n \<le> n')" for n
  proof -
    have "relevant_attr m n' \<noteq> None \<longleftrightarrow>
            (\<exists>f'. \<not> prefix ''_'' n' \<and> map_of m n' = Some (Callable f')
                  \<and> any_in [''chat'', ''message'', ''response'', ''cori''] (lower n'))" for n'
      using relevant_attr_Some_iff [of m n'] by auto
    then show ?thesis by blast
  qed
  with keyword_pass_least [OF assms, of f] show ?thesis
    by (simp only: relevant_attr_Some_iff conj_assoc)
qed

theorem keyword_pass_returns_least_name_witness:
  "first_some (callable_attr two_handlers) function_candidates = None
   \<and> find_api_function two_handlers = Some second_handler
   \<and> (\<exists>n. \<not> prefix ''_'' n \<and> map_of two_handlers n = Some (Callable second_handler)
          \<and> any_in [''chat'', ''message'', ''response'', ''cori''] (lower n)
          \<and> (\<forall>n' f'. \<not> prefix ''_'' n' \<and> map_of two_handlers n' = Some (Callable f')
                      \<and> any_in [''chat'', ''message'', ''response'', ''cori''] (lower n')
                 \<longrightarrow> n \<le> n'))"
proof -
  from keyword_pass_returns_least_name [OF pass1_two_handlers, of second_handler]
    find_two_handlers pass1_two_handlers
  show ?thesis by blast
qed

section \<open>How a run of \<open>main\<close> ends\<close>

lemma join_nonempty: "b \<noteq> [] \<Longrightarrow> join a b \<noteq> []"
  by (simp add: join_def)

lemma patterns_nonempty: "p \<in> set patterns \<Longrightarrow> p \<noteq> []"
  by (auto simp: patterns_def)

lemma partial_name_nonempty: "partial_name name \<Longrightarrow> name \<noteq> []"
  by (auto simp: partial_name_def)

lemma content_hit_nonempty: "content_hit (name, c) \<Longrightarrow> name \<noteq> []"
  by (auto simp: content_hit_def)

lemma first_some_SomeE:
  "first_some f xs = Some y \<Longrightarrow> \<exists>x\<in>set xs. f x = Some y"
  by (induction xs) (auto split: option.splits)

lemma exact_match_nonempty: "exact_match fs = Some p \<Longrightarrow> p \<noteq> []"
proof -
  assume "exact_match fs = Some p"
  then obtain d where "exact_in_dir d = Some p"
    unfolding exact_match_def by (blast dest: first_some_SomeE)
  then obtain pattern root where "pattern \<in> set patterns" "p = join root pattern"
    by (cases d) (auto dest: exact_in_dir_SomeD)
  then show ?thesis by (simp add: join_nonempty patterns_nonempty)
qed

lemma partial_match_nonempty: "partial_match fs = Some p \<Longrightarrow> p \<noteq> []"
proof -
  assume "partial_match fs = Some p"
  then obtain d where "partial_in_dir d = Some p"
    unfolding partial_match_def by (blast dest: first_some_SomeE)
  then obtain root x where "(case x of (name, c) \<Rightarrow> if partial_name name then Some (join root name) else None) = Some p"
    by (cases d) (auto simp: partial_in_dir_def dest: first_some_SomeE)
  then show ?thesis
    by (cases x) (auto simp: join_nonempty partial_name_nonempty split: if_splits)
qed

lemma hit_match_nonempty: "first_some hit_in_dir ds = Some p \<Longrightarrow> p \<noteq> []"
proof -
  assume "first_some hit_in_dir ds = Some p"
  then obtain d where "hit_in_dir d = Some p" by (blast dest: first_some_SomeE)
  then obtain root x where "(case x of (name, c) \<Rightarrow> if content_hit (name, c) then Some (join root name) else None) = Some p"
    by (cases d) (auto simp: hit_in_dir_def dest: first_some_SomeE)
  then show ?thesis
    by (cases x) (auto simp: join_nonempty content_hit_nonempty split: if_splits)
qed

lemma find_path_nonempty:
  assumes "find_chatbot_module fs = Inr (Some p)"
  shows "p \<noteq> [] \<and> fs \<noteq> None"
  using assms
  by (auto simp: find_chatbot_module_def content_match_hit
      split: if_splits option.splits
      dest: exact_match_nonempty partial_match_nonempty hit_match_nonempty)

lemma load_None_iff:
  "load_module_from_path loader n p = Inr None \<longleftrightarrow>
     loader n p = NoSpec \<or> (\<exists>e. loader n p = ExecRaises (Exception (Inr e)))"
  by (auto simp: load_module_from_path_def split: executed.splits raised.splits sum.splits)

lemma walk_tree_with_bot:
  "os_walk (Some tree_with_bot)
     = [(''CoreShare'', []),
        (''CoreShare/notes'', [(''mychat.py'', Some ''chat with cori'')]),
        (''CoreShare/src'', [(''bot.py'', Some [])])]"
  by (simp add: os_walk_def tree_with_bot_def REPO_DIR_def join_def suffix_to_prefix)

lemma exact_tree_with_bot: "exact_match (Some tree_with_bot) = Some ''CoreShare/src/bot.py''"
proof -
  have d1: "exact_in_dir (''CoreShare'', []) = None"
    by (simp add: exact_in_dir_None_iff)
  have d2: "exact_in_dir (''CoreShare/notes'', [(''mychat.py'', Some ''chat with cori'')]) = None"
    by (simp add: exact_in_dir_None_iff patterns_def)
  have d3: "exact_in_dir (''CoreShare/src'', [(''bot.py'', Some [])]) = Some ''CoreShare/src/bot.py''"
    by (simp add: exact_in_dir_def patterns_def join_def suffix_to_prefix)
  show ?thesis by (simp add: exact_match_def walk_tree_with_bot d1 d2 d3)
qed

lemma find_tree_with_bot:
  "find_chatbot_module (Some tree_with_bot) = Inr (Some ''CoreShare/src/bot.py'')"
  by (simp add: find_chatbot_module_def exact_tree_with_bot)

lemma module_name_bot: "module_name_of ''CoreShare/src/bot.py'' = ''bot''"
  by (simp add: module_name_of_def basename_def split_def first_piece_def)

text \<open>
  C4, as stated, fails: when the top-level code of the selected file calls
  \<open>sys.exit(0)\<close>, the exception is not one that the loader catches; the run ends
  during the load with no verdict at all, and the process leaves with status 0.
\<close>

theorem exit_during_load_gives_no_verdict:
  "find_chatbot_module (Some tree_with_bot) = Inr (Some ''CoreShare/src/bot.py'')
   \<and> exiting_loader 0 ''bot'' ''CoreShare/src/bot.py'' = ExecRaises (BaseException (SystemExit 0))
   \<and> main None (Some tree_with_bot) (exiting_loader 0)
       = (Inl (SystemExit 0), [FindChatbotModule, LoadModule ''bot'' ''CoreShare/src/bot.py''])
   \<and> exit_status (fst (main None (Some tree_with_bot) (exiting_loader 0))) = 0"
proof -
  have load: "load_module_from_path (exiting_loader 0) (module_name_of ''CoreShare/src/bot.py'')
                ''CoreShare/src/bot.py'' = Inl (SystemExit 0)"
    by (simp add: load_module_from_path_def exiting_loader_def)
  have "main None (Some tree_with_bot) (exiting_loader 0)
          = (Inl (SystemExit 0), [FindChatbotModule, LoadModule (module_name_of ''CoreShare/src/bot.py'') ''CoreShare/src/bot.py''])"
    by (rule main_load_escaped [OF _ find_tree_with_bot _ load]) simp_all
  then show ?thesis
    by (simp add: find_tree_with_bot module_name_bot exiting_loader_def exit_status_def)
qed

text \<open>
  C4, amended. When \<open>load_module_from_path\<close> returns \<open>None\<close> for the selected
  file, which it does when there is no spec or when the top-level code raises an
  \<open>Exception\<close> whose text renders, \<open>main\<close> returns the failed verdict after one
  load and without the Flask-endpoint fallback. For a search root that exists, \<open>main\<close>
  returns the failed verdict without the fallback in no other way.
\<close>

theorem load_failure_is_fatal:
  "(\<forall>path. find_chatbot_module fs = Inr (Some path)
            \<and> load_module_from_path loader (module_name_of path) path = Inr None
       \<longrightarrow> main message fs loader
             = (Inr False, [FindChatbotModule, LoadModule (module_name_of path) path]))
   \<and> (load_module_from_path loader n p = Inr None
        \<longleftrightarrow> loader n p = NoSpec \<or> (\<exists>e. loader n p = ExecRaises (Exception (Inr e))))
   \<and> (fs \<noteq> None \<and> fst (main message fs loader) = Inr False
        \<and> TestFlaskEndpoints \<notin> set (snd (main message fs loader))
       \<longrightarrow> (\<exists>path. find_chatbot_module fs = Inr (Some path)
                  \<and> load_module_from_path loader (module_name_of path) path = Inr None))"
proof (intro conjI allI impI)
  fix path
  assume a: "find_chatbot_module fs = Inr (Some path)
            \<and> load_module_from_path loader (module_name_of path) path = Inr None"
  with find_path_nonempty [of fs path] show "main message fs loader
               = (Inr False, [FindChatbotModule, LoadModule (module_name_of path) path])"
    by (simp add: main_load_failed)
next
  show "load_module_from_path loader n p = Inr None
        \<longleftrightarrow> loader n p = NoSpec \<or> (\<exists>e. loader n p = ExecRaises (Exception (Inr e)))"
    by (rule load_None_iff)
next
  assume a: "fs \<noteq> None \<and> fst (main message fs loader) = Inr False
               \<and> TestFlaskEndpoints \<notin> set (snd (main message fs loader))"
  then have fs: "fs \<noteq> None" and no_fallback: "TestFlaskEndpoints \<notin> set (snd (main message fs loader))"
    and failed: "fst (main message fs loader) = Inr False"
    by simp_all
  from find_chatbot_module_returns obtain found where found: "find_chatbot_module fs = Inr found"
    by blast
  show "\<exists>path. find_chatbot_module fs = Inr (Some path)
                  \<and> load_module_from_path loader (module_name_of path) path = Inr None"
  proof (cases found)
    case None
    from main_no_module [OF fs found [unfolded None], of message loader] no_fallback
    show ?thesis by simp
  next
    case (Some path)
    note found' = found [unfolded Some]
    from find_path_nonempty [OF found'] have ne: "path \<noteq> []" by simp
    show ?thesis
    proof (cases "load_module_from_path loader (module_name_of path) path")
      case (Inl esc)
      from main_load_escaped [OF fs found' ne Inl, of message] failed show ?thesis by simp
    next
      case (Inr loaded)
      show ?thesis
      proof (cases loaded)
        case None
        with Inr found' show ?thesis by simp
      next
        case loaded_some: (Some r)
        obtain m s where r: "r = (m, s)" by (cases r)
        note load = Inr [unfolded loaded_some r]
        show ?thesis
        proof (cases "find_api_function m")
          case None
          then have "find_api_function m = None \<or> (\<exists>f. find_api_function m = Some f \<and> \<not> truthy f)"
            by simp
          from main_no_function [OF fs found' ne load this, of message] no_fallback
          show ?thesis by simp
        next
          case api: (Some f)
          show ?thesis
          proof (cases "truthy f")
            case False
            with api have "find_api_function m = None \<or> (\<exists>f. find_api_function m = Some f \<and> \<not> truthy f)"
              by simp
            from main_no_function [OF fs found' ne load this, of message] no_fallback
            show ?thesis by simp
          next
            case True
            show ?thesis
            proof (cases "dunder_name f")
              case None
              from main_nameless_function [OF fs found' ne load api True None, of message] failed
              show ?thesis by simp
            next
              case named: (Some nm)
              then have nn: "dunder_name f \<noteq> None" by simp
              obtain result events s' where run:
                "try_chatbot_function (Some f) (test_messages message) s = (result, events, s')"
                by (cases "try_chatbot_function (Some f) (test_messages message) s")
              from main_invoked [OF fs found' ne load api True nn run] no_fallback failed
              show ?thesis by (cases result) (auto split: if_splits)
            qed
          qed
        qed
      qed
    qed
  qed
qed

theorem load_failure_is_fatal_witness:
  "find_chatbot_module (Some tree_with_bot) = Inr (Some ''CoreShare/src/bot.py'')
   \<and> load_module_from_path failing_loader (module_name_of ''CoreShare/src/bot.py'')
         ''CoreShare/src/bot.py'' = Inr None
   \<and> main None (Some tree_with_bot) failing_loader
       = (Inr False, [FindChatbotModule, LoadModule ''bot'' ''CoreShare/src/bot.py''])
   \<and> Some tree_with_bot \<noteq> None
   \<and> fst (main None (Some tree_with_bot) failing_loader) = Inr False
   \<and> TestFlaskEndpoints \<notin> set (snd (main None (Some tree_with_bot) failing_loader))"
proof -
  have load: "load_module_from_path failing_loader (module_name_of ''CoreShare/src/bot.py'')
                ''CoreShare/src/bot.py'' = Inr None"
    by (simp add: load_module_from_path_def failing_loader_def)
  from load_failure_is_fatal [of "Some tree_with_bot" failing_loader None]
  have "find_chatbot_module (Some tree_with_bot) = Inr (Some ''CoreShare/src/bot.py'')
          \<and> load_module_from_path failing_loader (module_name_of ''CoreShare/src/bot.py'')
                ''CoreShare/src/bot.py'' = Inr None
        \<longrightarrow> main None (Some tree_with_bot) failing_loader
          = (Inr False, [FindChatbotModule, LoadModule (module_name_of ''CoreShare/src/bot.py'') ''CoreShare/src/bot.py''])"
    by blast
  with find_tree_with_bot load
  have run: "main None (Some tree_with_bot) failing_loader
          = (Inr False, [FindChatbotModule, LoadModule ''bot'' ''CoreShare/src/bot.py''])"
    by (simp only: module_name_bot)
  show ?thesis
    unfolding run using find_tree_with_bot load by simp
qed








end
